theory Spec2Isabelle
  imports
    Complex_Main
    "HOL-Library.Sublist"
    "HOL-Library.Char_ord"
    "HOL-Library.List_Lexorder"
    "HOL-Library.Product_Lexorder"
begin

section \<open>Tables\<close>

text \<open>
  The dashboard (\<^verbatim>\<open>app.py\<close>) is one script over pandas data frames. A data frame is
  modelled as its column labels, in order, and its rows, each a list of cells in the
  order of the labels. A cell is a number, a string or missing (pandas' \<^verbatim>\<open>NaN\<close>).
  Numbers are exact rationals: the decimal numerals of a CSV file are rationals, and the
  rounding of 64-bit floating point arithmetic is not modelled. Booleans and dates, which
  \<^verbatim>\<open>read_csv\<close> can also infer, are outside the model.
\<close>

datatype cell = Num rat | Str string | NaN

record frame =
  columns :: "string list"
  rows :: "cell list list"

datatype py_error =
    ValueError | KeyError | TypeError | IndexError | AttributeError | InvalidIndexError
  | StreamlitAPIException

text \<open>Position of the first column carrying a label, and the cell of a row there.\<close>

fun col_index :: "string \<Rightarrow> string list \<Rightarrow> nat option" where
  "col_index c [] = None"
| "col_index c (d # ds) =
     (if c = d then Some 0 else map_option Suc (col_index c ds))"

definition cell_at :: "string list \<Rightarrow> string \<Rightarrow> cell list \<Rightarrow> cell" where
  "cell_at cols c r =
     (case col_index c cols of
        None \<Rightarrow> NaN
      | Some i \<Rightarrow> (if i < length r then r ! i else NaN))"

definition column :: "frame \<Rightarrow> string \<Rightarrow> cell list" where
  "column df c = map (cell_at (columns df) c) (rows df)"

section \<open>Dataset loader\<close>

subsection \<open>Column name normalisation\<close>

text \<open>
  \<^verbatim>\<open>df.columns.str.lower().str.replace(r"[^\w]+", "_", regex=True)\<close>.
  Labels are modelled as ASCII strings. For a code point above 127 Python's \<^verbatim>\<open>lower\<close>
  and \<^verbatim>\<open>\w\<close> consult the Unicode tables, which are not modelled: such a byte is kept as
  it is here (what happens to the UTF-8 bytes of a lowercase letter with an accent), and
  the statements about normalised labels are made for ASCII labels.
\<close>

definition is_ascii :: "char \<Rightarrow> bool" where
  "is_ascii c = ((of_char c :: nat) < 128)"

definition is_upper :: "char \<Rightarrow> bool" where
  "is_upper c = (65 \<le> (of_char c :: nat) \<and> (of_char c :: nat) \<le> 90)"

definition is_lower :: "char \<Rightarrow> bool" where
  "is_lower c = (97 \<le> (of_char c :: nat) \<and> (of_char c :: nat) \<le> 122)"

definition is_digit :: "char \<Rightarrow> bool" where
  "is_digit c = (48 \<le> (of_char c :: nat) \<and> (of_char c :: nat) \<le> 57)"

definition lower_char :: "char \<Rightarrow> char" where
  "lower_char c = (if is_upper c then char_of ((of_char c :: nat) + 32) else c)"

definition str_lower :: "string \<Rightarrow> string" where
  "str_lower s = map lower_char s"

text \<open>\<^verbatim>\<open>\w\<close>: a letter, a digit or the underscore.\<close>

definition is_word :: "char \<Rightarrow> bool" where
  "is_word c =
     (is_lower c \<or> is_upper c \<or> is_digit c \<or> c = CHR ''_'' \<or> \<not> is_ascii c)"

text \<open>
  \<^verbatim>\<open>re.sub(r"[^\w]+", "_", s)\<close>: scanning from the left, every maximal run of
  characters that are not word characters is replaced by one underscore.
\<close>

function str_replace_nonword :: "string \<Rightarrow> string" where
  "str_replace_nonword [] = []"
| "str_replace_nonword (c # cs) =
     (if is_word c then c # str_replace_nonword cs
      else CHR ''_'' # str_replace_nonword (dropWhile (\<lambda>d. \<not> is_word d) cs))"
  by pat_completeness auto
termination
  by (relation "measure length") (auto simp: less_Suc_eq_le length_dropWhile_le)

definition normalize_name :: "string \<Rightarrow> string" where
  "normalize_name s = str_replace_nonword (str_lower s)"

subsection \<open>Reading and concatenating the files\<close>

text \<open>
  A file of the data directory, as \<^verbatim>\<open>pd.read_csv\<close> returns it: its name and the parsed
  frame (header labels and data rows). Parsing the text of the file is left to pandas.
\<close>

record csv_file =
  fname :: string
  parsed :: frame

text \<open>
  \<^verbatim>\<open>df["source_file"] = f.name\<close>: an existing column of that label is overwritten in
  place, otherwise the column is appended on the right.
\<close>

definition set_column :: "string \<Rightarrow> cell \<Rightarrow> frame \<Rightarrow> frame" where
  "set_column c v df =
     (case col_index c (columns df) of
        Some i \<Rightarrow> df\<lparr>rows := map (\<lambda>r. r[i := v]) (rows df)\<rparr>
      | None \<Rightarrow> df\<lparr>columns := columns df @ [c], rows := map (\<lambda>r. r @ [v]) (rows df)\<rparr>)"

definition rename_columns :: "frame \<Rightarrow> frame" where
  "rename_columns df = df\<lparr>columns := map normalize_name (columns df)\<rparr>"

text \<open>The body of the loop of \<^verbatim>\<open>load_data\<close>, for one file.\<close>

definition load_frame :: "csv_file \<Rightarrow> frame" where
  "load_frame f = rename_columns (set_column ''source_file'' (Str (fname f)) (parsed f))"

text \<open>
  \<^verbatim>\<open>pd.concat(frames, ignore_index=True)\<close>. An empty list raises \<^verbatim>\<open>ValueError\<close>
  (``No objects to concatenate''). The labels of the result are those of the frames when
  all frames carry the same labels, and otherwise their union in order of first
  appearance; a frame whose labels differ from the result's is reindexed, a column it
  lacks being filled with missing cells, and reindexing a frame with a repeated label
  raises \<^verbatim>\<open>InvalidIndexError\<close>. The rows follow each other in the order of the frames.
\<close>

definition unique_first :: "'a list \<Rightarrow> 'a list" where
  "unique_first xs = rev (remdups (rev xs))"

definition union_columns :: "frame list \<Rightarrow> string list" where
  "union_columns fs =
     (case fs of
        [] \<Rightarrow> []
      | f # _ \<Rightarrow>
          (if list_all (\<lambda>g. columns g = columns f) fs then columns f
           else unique_first (concat (map columns fs))))"

definition reindex :: "string list \<Rightarrow> frame \<Rightarrow> cell list list" where
  "reindex cols f =
     (if columns f = cols then rows f
      else map (\<lambda>r. map (\<lambda>c. cell_at (columns f) c r) cols) (rows f))"

definition pd_concat :: "frame list \<Rightarrow> py_error + frame" where
  "pd_concat fs =
     (if fs = [] then Inl ValueError
      else
        (let cols = union_columns fs in
         if list_ex (\<lambda>f. columns f \<noteq> cols \<and> \<not> distinct (columns f)) fs
         then Inl InvalidIndexError
         else Inr \<lparr>columns = cols, rows = concat (map (reindex cols) fs)\<rparr>))"

definition load_data :: "csv_file list \<Rightarrow> py_error + frame" where
  "load_data csvs = pd_concat (map load_frame csvs)"

text \<open>
  \<^verbatim>\<open>numeric_cols = [c for c in df.columns if np.issubdtype(df[c].dtype, np.number)]\<close>.
  With a repeated label \<^verbatim>\<open>df[c]\<close> is a frame, which has no \<^verbatim>\<open>dtype\<close>:
  \<^verbatim>\<open>AttributeError\<close>. The dtype of a column is abstracted to its cells: it is numeric
  when the table has a row and the column holds no string (a column of a table without
  rows has dtype \<^verbatim>\<open>object\<close>).
\<close>

definition is_numeric_col :: "frame \<Rightarrow> string \<Rightarrow> bool" where
  "is_numeric_col df c =
     (rows df \<noteq> [] \<and> list_all (\<lambda>v. case v of Str _ \<Rightarrow> False | _ \<Rightarrow> True) (column df c))"

definition numeric_cols :: "frame \<Rightarrow> py_error + string list" where
  "numeric_cols df =
     (if distinct (columns df) then Inr (filter (is_numeric_col df) (columns df))
      else Inl AttributeError)"

section \<open>Filter section\<close>

text \<open>
  \<^verbatim>\<open>if source != "All": df_view = df_view[df_view["source_file"] == source]\<close>
\<close>

definition select_source :: "string \<Rightarrow> frame \<Rightarrow> py_error + frame" where
  "select_source source df =
     (if source = ''All'' then Inr df
      else if ''source_file'' \<notin> set (columns df) then Inl KeyError
      else Inr (df\<lparr>rows :=
        filter (\<lambda>r. cell_at (columns df) ''source_file'' r = Str source) (rows df)\<rparr>))"

fun numbers :: "cell list \<Rightarrow> rat list" where
  "numbers [] = []"
| "numbers (Num x # cs) = x # numbers cs"
| "numbers (_ # cs) = numbers cs"

definition has_str :: "cell list \<Rightarrow> bool" where
  "has_str cs = list_ex (\<lambda>v. case v of Str _ \<Rightarrow> True | _ \<Rightarrow> False) cs"

text \<open>Python's \<^verbatim>\<open>int\<close> of a float drops the fraction (rounds towards zero).\<close>

definition py_int :: "rat \<Rightarrow> int" where
  "py_int x = (if 0 \<le> x then \<lfloor>x\<rfloor> else \<lceil>x\<rceil>)"

text \<open>
  \<^verbatim>\<open>yr_min, yr_max = int(df_view["year"].min()), int(df_view["year"].max())\<close>.
  \<^verbatim>\<open>min\<close> and \<^verbatim>\<open>max\<close> skip missing cells and are \<^verbatim>\<open>NaN\<close> when no number is left,
  and \<^verbatim>\<open>int(NaN)\<close> raises \<^verbatim>\<open>ValueError\<close>. A year column holding a string makes this
  line or the comparison of line 91 raise (\<^verbatim>\<open>TypeError\<close> or \<^verbatim>\<open>ValueError\<close>,
  depending on the strings); the model reports \<^verbatim>\<open>TypeError\<close> here.
\<close>

definition year_bounds :: "frame \<Rightarrow> py_error + (int \<times> int)" where
  "year_bounds df =
     (let ys = column df ''year'' in
      if has_str ys then Inl TypeError
      else
        (case numbers ys of
           [] \<Rightarrow> Inl ValueError
         | y # rest \<Rightarrow> Inr (py_int (fold min rest y), py_int (fold max rest y))))"

text \<open>
  \<^verbatim>\<open>st.sidebar.slider("Year Range", yr_min, yr_max, (yr_min, yr_max))\<close>. The slider
  raises \<^verbatim>\<open>StreamlitAPIException\<close> when its two bounds coincide (bounds in the wrong
  order do not arise: \<^verbatim>\<open>int\<close> of the least year is at most \<^verbatim>\<open>int\<close> of the greatest).
  Otherwise its value is the pair the user has chosen among the pairs it offers, the
  \<open>(a, b)\<close> with \<open>yr_min \<le> a \<le> b \<le> yr_max\<close>, and the full span when it was not
  touched. A pair it does not offer is never its value: a slider whose bounds have
  changed is a new widget and stands at its default, the full span.
\<close>

definition st_slider :: "int \<Rightarrow> int \<Rightarrow> (int \<times> int) option \<Rightarrow> py_error + int \<times> int" where
  "st_slider lo hi choice =
     (if hi \<le> lo then Inl StreamlitAPIException
      else
        (case choice of
           None \<Rightarrow> Inr (lo, hi)
         | Some (a, b) \<Rightarrow> (if lo \<le> a \<and> a \<le> b \<and> b \<le> hi then Inr (a, b) else Inr (lo, hi))))"

text \<open>
  \<^verbatim>\<open>df_view[(df_view["year"] >= yr_rng[0]) & (df_view["year"] <= yr_rng[1])]\<close>:
  a comparison with a missing cell is false, and the comparison of a string with a
  number raises \<^verbatim>\<open>TypeError\<close>.
\<close>

definition year_in_range :: "int \<times> int \<Rightarrow> cell \<Rightarrow> bool" where
  "year_in_range rng v =
     (case v of Num y \<Rightarrow> of_int (fst rng) \<le> y \<and> y \<le> of_int (snd rng) | _ \<Rightarrow> False)"

definition year_filter :: "int \<times> int \<Rightarrow> frame \<Rightarrow> py_error + frame" where
  "year_filter rng df =
     (if has_str (column df ''year'') then Inl TypeError
      else Inr (df\<lparr>rows :=
        filter (\<lambda>r. year_in_range rng (cell_at (columns df) ''year'' r)) (rows df)\<rparr>))"

text \<open>The bounds handed to the year slider for a source selection (lines 84 to 89).\<close>

definition year_slider_bounds :: "frame \<Rightarrow> string \<Rightarrow> py_error + (int \<times> int)" where
  "year_slider_bounds df source =
     (case select_source source df of
        Inl e \<Rightarrow> Inl e
      | Inr v \<Rightarrow> year_bounds v)"

text \<open>Lines 84 to 91: the filtered view \<^verbatim>\<open>df_view\<close>.\<close>

definition filter_section :: "frame \<Rightarrow> string \<Rightarrow> (int \<times> int) option \<Rightarrow> py_error + frame" where
  "filter_section df source choice =
     (case select_source source df of
        Inl e \<Rightarrow> Inl e
      | Inr v \<Rightarrow>
          (if ''year'' \<in> set (columns v) then
             (case year_bounds v of
                Inl e \<Rightarrow> Inl e
              | Inr (yr_min, yr_max) \<Rightarrow>
                  (case st_slider yr_min yr_max choice of
                     Inl e \<Rightarrow> Inl e
                   | Inr yr_rng \<Rightarrow> year_filter yr_rng v))
           else Inr v))"

text \<open>
  The filter of lines 85, 86 and 91 alone, as a function of the table, the selector and
  the pair \<^verbatim>\<open>yr_rng\<close>: the filter section without lines 89 and 90, which only set up the
  widget the pair comes from.
\<close>

definition filter_engine :: "frame \<Rightarrow> string \<Rightarrow> int \<times> int \<Rightarrow> py_error + frame" where
  "filter_engine df source yr_rng =
     (case select_source source df of
        Inl e \<Rightarrow> Inl e
      | Inr v \<Rightarrow> (if ''year'' \<in> set (columns v) then year_filter yr_rng v else Inr v))"

section \<open>Aggregation\<close>

text \<open>
  \<^verbatim>\<open>df.groupby(by)[metric].mean()\<close>. pandas walks the rows, drops those whose key is
  missing (\<^verbatim>\<open>dropna=True\<close>), collects the metric cells of every key, and orders the
  groups by key (\<^verbatim>\<open>sort=True\<close>; numbers before strings when both occur). The mean of a
  group skips missing cells and is missing itself when nothing is left; a string among
  the cells raises \<^verbatim>\<open>TypeError\<close>.
\<close>

type_synonym series = "(cell \<times> rat option) list"

fun add_to_group :: "cell \<Rightarrow> cell \<Rightarrow> (cell \<times> cell list) list \<Rightarrow> (cell \<times> cell list) list" where
  "add_to_group k v [] = [(k, [v])]"
| "add_to_group k v ((k', vs) # gs) =
     (if k = k' then (k', vs @ [v]) # gs else (k', vs) # add_to_group k v gs)"

fun group_rows :: "(cell \<times> cell) list \<Rightarrow> (cell \<times> cell list) list \<Rightarrow> (cell \<times> cell list) list" where
  "group_rows [] gs = gs"
| "group_rows ((k, v) # ps) gs =
     group_rows ps (if k = NaN then gs else add_to_group k v gs)"

definition sort_rank :: "cell \<Rightarrow> nat \<times> rat \<times> string" where
  "sort_rank k = (case k of Num x \<Rightarrow> (0, x, []) | Str s \<Rightarrow> (1, 0, s) | NaN \<Rightarrow> (2, 0, []))"

definition groupby :: "frame \<Rightarrow> string \<Rightarrow> string \<Rightarrow> py_error + (cell \<times> cell list) list" where
  "groupby df by metric =
     (if by \<notin> set (columns df) \<or> metric \<notin> set (columns df) then Inl KeyError
      else Inr (sort_key (\<lambda>g. sort_rank (fst g))
                 (group_rows (zip (column df by) (column df metric)) [])))"

definition mean :: "rat list \<Rightarrow> rat option" where
  "mean xs = (if xs = [] then None else Some (sum_list xs / of_nat (length xs)))"

definition mean_skipna :: "cell list \<Rightarrow> py_error + rat option" where
  "mean_skipna vs = (if has_str vs then Inl TypeError else Inr (mean (numbers vs)))"

fun mean_groups :: "(cell \<times> cell list) list \<Rightarrow> py_error + series" where
  "mean_groups [] = Inr []"
| "mean_groups ((k, vs) # gs) =
     (case mean_skipna vs of
        Inl e \<Rightarrow> Inl e
      | Inr m \<Rightarrow> (case mean_groups gs of Inl e \<Rightarrow> Inl e | Inr s \<Rightarrow> Inr ((k, m) # s)))"

definition groupby_mean :: "frame \<Rightarrow> string \<Rightarrow> string \<Rightarrow> py_error + series" where
  "groupby_mean df by metric =
     (case groupby df by metric of Inl e \<Rightarrow> Inl e | Inr gs \<Rightarrow> mean_groups gs)"

text \<open>
  \<^verbatim>\<open>Series.sort_values(ascending=...)\<close>: the missing values are set aside and come
  last in both directions; the others are sorted, for the descending direction by
  reversing, sorting and reversing again. pandas' default sort does not fix the order of
  equal values; the model's sort is stable.
\<close>

definition is_missing :: "cell \<times> rat option \<Rightarrow> bool" where
  "is_missing e = (snd e = None)"

definition sort_values :: "bool \<Rightarrow> series \<Rightarrow> series" where
  "sort_values ascending s =
     (let present = filter (\<lambda>e. \<not> is_missing e) s;
          missing = filter is_missing s
      in (if ascending then sort_key (\<lambda>e. the (snd e)) present
          else rev (sort_key (\<lambda>e. the (snd e)) (rev present))) @ missing)"

definition head :: "nat \<Rightarrow> 'a list \<Rightarrow> 'a list" where
  "head n xs = take n xs"

text \<open>\<^verbatim>\<open>Series.nlargest(n)\<close>: the first \<open>n\<close> in descending order, earlier entries first
  among equal values, missing values last.\<close>

definition nlargest :: "nat \<Rightarrow> series \<Rightarrow> series" where
  "nlargest n s = take n (sort_values False s)"

section \<open>Chart renderers\<close>

text \<open>
  What a branch of the \<^verbatim>\<open>if view == ...\<close> chain puts on the page: the table handed to
  \<^verbatim>\<open>st.dataframe\<close>, the series handed to the plotting library, or a warning. Drawing
  is left to matplotlib and seaborn and is not modelled, nor are the entries of the
  correlation matrix (only its labels are kept).
\<close>

datatype artifact =
    Preview "cell list list"
  | BarFig series
  | LineFig series
  | PieFig series
  | Heatmap "string list"
  | Warning string

text \<open>The number of figures an artifact passes to \<^verbatim>\<open>st.pyplot\<close>.\<close>

fun charts :: "artifact \<Rightarrow> nat" where
  "charts (Preview _) = 0"
| "charts (Warning _) = 0"
| "charts _ = 1"

fun aggregated :: "artifact \<Rightarrow> series" where
  "aggregated (BarFig s) = s"
| "aggregated (LineFig s) = s"
| "aggregated (PieFig s) = s"
| "aggregated _ = []"

text \<open>
  \<^verbatim>\<open>category = "entity" if "entity" in df_view.columns else df_view.columns[0]\<close>
\<close>

definition category_column :: "frame \<Rightarrow> py_error + string" where
  "category_column df =
     (if ''entity'' \<in> set (columns df) then Inr ''entity''
      else (case columns df of [] \<Rightarrow> Inl IndexError | c # _ \<Rightarrow> Inr c))"

text \<open>
  \<^verbatim>\<open>st.selectbox(label, options)\<close>: the option the user picked, the first option when
  nothing was picked, and \<^verbatim>\<open>None\<close> when there is no option.
\<close>

definition st_selectbox :: "string list \<Rightarrow> string \<Rightarrow> string option" where
  "st_selectbox options choice =
     (case options of
        [] \<Rightarrow> None
      | first # _ \<Rightarrow> Some (if choice \<in> set options then choice else first))"

text \<open>
  The Bar Chart branch. \<^verbatim>\<open>metric\<close> is the value of the metric select box, \<^verbatim>\<open>top_n\<close>
  that of the slider (3 to 20), \<^verbatim>\<open>srt\<close> whether the order is ``Highest First''.
  Selecting the column \<^verbatim>\<open>None\<close> of a group-by raises \<^verbatim>\<open>KeyError\<close>.
\<close>

definition bar_chart :: "frame \<Rightarrow> string option \<Rightarrow> nat \<Rightarrow> bool \<Rightarrow> py_error + artifact" where
  "bar_chart df_view metric top_n srt =
     (case category_column df_view of
        Inl e \<Rightarrow> Inl e
      | Inr category \<Rightarrow>
          (case metric of
             None \<Rightarrow> Inl KeyError
           | Some m \<Rightarrow>
               (case groupby_mean df_view category m of
                  Inl e \<Rightarrow> Inl e
                | Inr agg \<Rightarrow> Inr (BarFig (head top_n (sort_values (\<not> srt) agg))))))"

text \<open>The Trend Over Time branch.\<close>

definition trend :: "frame \<Rightarrow> string option \<Rightarrow> py_error + artifact" where
  "trend df_view tm =
     (if ''year'' \<notin> set (columns df_view)
      then Inr (Warning ''This dataset does not contain a 'year' column.'')
      else
        (case tm of
           None \<Rightarrow> Inl KeyError
         | Some m \<Rightarrow>
             (case groupby_mean df_view ''year'' m of
                Inl e \<Rightarrow> Inl e
              | Inr grp \<Rightarrow> Inr (LineFig grp))))"

text \<open>
  The Treatment Gap Pie branch.
  \<^verbatim>\<open>gap_col = next((c for c in df_view.columns if "gap" in c or "percent" in c), None)\<close>
\<close>

fun contains :: "string \<Rightarrow> string \<Rightarrow> bool" where
  "contains sub [] = (sub = [])"
| "contains sub (c # cs) = (prefix sub (c # cs) \<or> contains sub cs)"

definition find_gap_col :: "string list \<Rightarrow> string option" where
  "find_gap_col cols = find (\<lambda>c. contains ''gap'' c \<or> contains ''percent'' c) cols"

definition gap_pie :: "frame \<Rightarrow> py_error + artifact" where
  "gap_pie df_view =
     (case find_gap_col (columns df_view) of
        None \<Rightarrow> Inr (Warning ''No gap column found.'')
      | Some gap_col \<Rightarrow>
          (if gap_col = [] then Inr (Warning ''No gap column found.'')
           else
             (case category_column df_view of
                Inl e \<Rightarrow> Inl e
              | Inr category \<Rightarrow>
                  (case groupby_mean df_view category gap_col of
                     Inl e \<Rightarrow> Inl e
                   | Inr means \<Rightarrow> Inr (PieFig (nlargest 8 means))))))"

section \<open>The script\<close>

datatype view_mode = DataPreview | BarChart | TrendOverTime | TreatmentGapPie | Correlation

text \<open>The values of the widgets, as the user has set them.\<close>

record ui =
  pick_dataset :: string
  chart :: view_mode
  year_range :: "(int \<times> int) option"
  metric_pick :: string
  top_n_pick :: nat
  highest_first :: bool
  trend_metric_pick :: string

text \<open>The three tiles and the artifact of the chosen view.\<close>

record page =
  kpi_rows :: nat
  kpi_numeric :: nat
  kpi_entities :: nat
  shown :: artifact

text \<open>\<^verbatim>\<open>df_view.get('entity', pd.Series()).nunique()\<close>: distinct values, missing ones apart.\<close>

definition entities :: "frame \<Rightarrow> nat" where
  "entities df_view =
     (if ''entity'' \<in> set (columns df_view)
      then length (remdups (filter (\<lambda>v. v \<noteq> NaN) (column df_view ''entity'')))
      else 0)"

text \<open>The chain \<^verbatim>\<open>if view == "Data Preview": ... elif ...\<close> of lines 108 to 160.\<close>

definition render :: "frame \<Rightarrow> string list \<Rightarrow> ui \<Rightarrow> py_error + artifact" where
  "render df_view num_cols u =
     (case chart u of
        DataPreview \<Rightarrow> Inr (Preview (head 15 (rows df_view)))
      | BarChart \<Rightarrow>
          bar_chart df_view (st_selectbox num_cols (metric_pick u)) (top_n_pick u) (highest_first u)
      | TrendOverTime \<Rightarrow> trend df_view (st_selectbox num_cols (trend_metric_pick u))
      | TreatmentGapPie \<Rightarrow> gap_pie df_view
      | Correlation \<Rightarrow> Inr (Heatmap num_cols))"

text \<open>
  The dataset select box offers \<^verbatim>\<open>["All"] + sorted(df["source_file"].unique())\<close>;
  its value is the option picked, and the first option, ``All'', when none was picked.
\<close>

definition dataset_options :: "frame \<Rightarrow> string list" where
  "dataset_options df =
     ''All'' # sort (remdups (concat (map (\<lambda>v. case v of Str s \<Rightarrow> [s] | _ \<Rightarrow> [])
                                         (column df ''source_file''))))"

definition pick_source :: "frame \<Rightarrow> string \<Rightarrow> string" where
  "pick_source df choice = (if choice \<in> set (dataset_options df) then choice else ''All'')"

text \<open>One run of the script, from the files of the directory and the widgets.\<close>

definition app :: "csv_file list \<Rightarrow> ui \<Rightarrow> py_error + page" where
  "app csvs u =
     (case load_data csvs of
        Inl e \<Rightarrow> Inl e
      | Inr df \<Rightarrow>
          (case numeric_cols df of
             Inl e \<Rightarrow> Inl e
           | Inr num_cols \<Rightarrow>
               (case filter_section df (pick_source df (pick_dataset u)) (year_range u) of
                  Inl e \<Rightarrow> Inl e
                | Inr df_view \<Rightarrow>
                    (case render df_view num_cols u of
                       Inl e \<Rightarrow> Inl e
                     | Inr a \<Rightarrow>
                         Inr \<lparr>kpi_rows = length (rows df_view),
                              kpi_numeric = length num_cols,
                              kpi_entities = entities df_view,
                              shown = a\<rparr>))))"

section \<open>Notions used in the statements\<close>

text \<open>A cell that holds a whole number.\<close>

definition is_whole :: "cell \<Rightarrow> bool" where
  "is_whole v = (case v of Num y \<Rightarrow> of_int (py_int y) = y | _ \<Rightarrow> False)"

text \<open>
  The year slider stands at the full span of a table: it was not touched, or the chosen
  pair is the pair of bounds the slider offers.
\<close>

definition full_span :: "frame \<Rightarrow> (int \<times> int) option \<Rightarrow> bool" where
  "full_span df choice = (case choice of None \<Rightarrow> True | Some r \<Rightarrow> year_bounds df = Inr r)"

text \<open>The metric cells of the rows whose category cell is \<open>k\<close>, in the order of the rows.\<close>

definition group_values :: "frame \<Rightarrow> string \<Rightarrow> string \<Rightarrow> cell \<Rightarrow> cell list" where
  "group_values df by metric k =
     map (cell_at (columns df) metric) (filter (\<lambda>r. cell_at (columns df) by r = k) (rows df))"

section \<open>Sample data\<close>

text \<open>
  Two files with the columns \<^verbatim>\<open>Entity,Year,Gap (%)\<close>, of three and two rows, and a
  third file that has no year column.
\<close>

definition a_csv :: csv_file where
  "a_csv = \<lparr>fname = ''a.csv'', parsed = \<lparr>columns = [''Entity'', ''Year'', ''Gap (%)''],
     rows = [[Str ''Alpha'', Num 2000, Num 10],
             [Str ''Beta'', Num 2010, Num 20],
             [Str ''Alpha'', Num 2010, Num 30]]\<rparr>\<rparr>"

definition b_csv :: csv_file where
  "b_csv = \<lparr>fname = ''b.csv'', parsed = \<lparr>columns = [''Entity'', ''Year'', ''Gap (%)''],
     rows = [[Str ''Gamma'', Num 2005, Num 40],
             [NaN, Num 2006, Num 50]]\<rparr>\<rparr>"

definition c_csv :: csv_file where
  "c_csv = \<lparr>fname = ''c.csv'', parsed = \<lparr>columns = [''Entity'', ''Gap (%)''],
     rows = [[Str ''Delta'', Num 60],
             [Str ''Beta'', NaN]]\<rparr>\<rparr>"

text \<open>The tables \<^verbatim>\<open>load_data\<close> builds from them.\<close>

definition ab_table :: frame where
  "ab_table = \<lparr>columns = [''entity'', ''year'', ''gap_'', ''source_file''],
     rows = [[Str ''Alpha'', Num 2000, Num 10, Str ''a.csv''],
             [Str ''Beta'', Num 2010, Num 20, Str ''a.csv''],
             [Str ''Alpha'', Num 2010, Num 30, Str ''a.csv''],
             [Str ''Gamma'', Num 2005, Num 40, Str ''b.csv''],
             [NaN, Num 2006, Num 50, Str ''b.csv'']]\<rparr>"

definition ac_table :: frame where
  "ac_table = \<lparr>columns = [''entity'', ''year'', ''gap_'', ''source_file''],
     rows = [[Str ''Alpha'', Num 2000, Num 10, Str ''a.csv''],
             [Str ''Beta'', Num 2010, Num 20, Str ''a.csv''],
             [Str ''Alpha'', Num 2010, Num 30, Str ''a.csv''],
             [Str ''Delta'', NaN, Num 60, Str ''c.csv''],
             [Str ''Beta'', NaN, NaN, Str ''c.csv'']]\<rparr>"

definition c_table :: frame where
  "c_table = \<lparr>columns = [''entity'', ''gap_'', ''source_file''],
     rows = [[Str ''Delta'', Num 60, Str ''c.csv''],
             [Str ''Beta'', NaN, Str ''c.csv'']]\<rparr>"

text \<open>A table whose first year is not a whole number.\<close>

definition h_table :: frame where
  "h_table = \<lparr>columns = [''entity'', ''year'', ''source_file''],
     rows = [[Str ''Alpha'', Num (4001 / 2), Str ''h.csv''],
             [Str ''Beta'', Num 2003, Str ''h.csv'']]\<rparr>"

text \<open>A table all of whose rows are of the same year.\<close>

definition s_table :: frame where
  "s_table = \<lparr>columns = [''entity'', ''year'', ''source_file''],
     rows = [[Str ''Alpha'', Num 2010, Str ''s.csv''],
             [Str ''Beta'', Num 2010, Str ''s.csv'']]\<rparr>"

text \<open>The widgets as they stand when the page is first opened.\<close>

definition ui_start :: ui where
  "ui_start = \<lparr>pick_dataset = ''All'', chart = DataPreview, year_range = None,
     metric_pick = [], top_n_pick = 10, highest_first = True, trend_metric_pick = []\<rparr>"

section \<open>The loader\<close>

lemma load_data_ab: "load_data [a_csv, b_csv] = Inr ab_table"
  by code_simp

lemma load_data_ac: "load_data [a_csv, c_csv] = Inr ac_table"
  by code_simp

lemma load_data_c: "load_data [c_csv] = Inr c_table"
  by code_simp

lemma length_reindex: "length (reindex cols f) = length (rows f)"
  by (simp add: reindex_def)

lemma rows_load_frame: "length (rows (load_frame f)) = length (rows (parsed f))"
  by (simp add: load_frame_def rename_columns_def set_column_def split: option.splits)

lemma pd_concat_rows:
  assumes "pd_concat fs = Inr df"
  shows "length (rows df) = sum_list (map (\<lambda>f. length (rows f)) fs)"
proof -
  from assms have "rows df = concat (map (reindex (union_columns fs)) fs)"
    by (auto simp: pd_concat_def Let_def split: if_splits)
  then show ?thesis
    by (simp add: length_concat comp_def length_reindex)
qed

lemma pd_concat_cases:
  assumes "fs \<noteq> []"
  shows "(\<exists>df. pd_concat fs = Inr df)
       \<or> (pd_concat fs = Inl InvalidIndexError \<and> (\<exists>f\<in>set fs. \<not> distinct (columns f)))"
  using assms by (auto simp: pd_concat_def Let_def list_ex_iff)

lemma set_unique_first: "set (unique_first xs) = set xs"
  by (simp add: unique_first_def)

lemma col_index_Some_mem: "col_index c cols = Some i \<Longrightarrow> c \<in> set cols"
  by (induction cols arbitrary: i) (auto split: if_splits)

lemma set_column_labels: "set (columns (set_column c v df)) = insert c (set (columns df))"
proof (cases "col_index c (columns df)")
  case None
  then show ?thesis by (simp add: set_column_def)
next
  case (Some i)
  then have "c \<in> set (columns df)" by (rule col_index_Some_mem)
  with Some show ?thesis by (auto simp: set_column_def)
qed

lemma load_frame_labels:
  "set (columns (load_frame f)) =
     normalize_name ` insert ''source_file'' (set (columns (parsed f)))"
  by (simp add: load_frame_def rename_columns_def set_column_labels)

lemma set_union_columns:
  assumes "fs \<noteq> []"
  shows "set (union_columns fs) = (\<Union>f\<in>set fs. set (columns f))"
proof -
  from assms obtain f rest where fs: "fs = f # rest" by (cases fs) auto
  show ?thesis
  proof (cases "list_all (\<lambda>g. columns g = columns f) fs")
    case True
    then have "\<forall>g\<in>set fs. columns g = columns f" by (simp add: list_all_iff)
    then have "(\<Union>g\<in>set fs. set (columns g)) = set (columns f)"
      using fs by auto
    with True show ?thesis by (simp add: union_columns_def fs)
  next
    case False
    then show ?thesis by (simp add: union_columns_def fs set_unique_first)
  qed
qed

lemma load_data_labels:
  assumes "load_data csvs = Inr df"
  shows "set (columns df) =
     normalize_name ` (\<Union>f\<in>set csvs. insert ''source_file'' (set (columns (parsed f))))"
proof -
  let ?fs = "map load_frame csvs"
  from assms have ne: "?fs \<noteq> []" and cols: "columns df = union_columns ?fs"
    by (auto simp: load_data_def pd_concat_def Let_def split: if_splits)
  from set_union_columns [OF ne] cols
  have "set (columns df) = (\<Union>f\<in>set csvs. set (columns (load_frame f)))" by simp
  then show ?thesis by (simp add: load_frame_labels image_UN)
qed

text \<open>
  C7. With no \<^verbatim>\<open>.csv\<close> file in the directory the loader raises \<^verbatim>\<open>ValueError\<close>
  (the concatenation of an empty list), and so does the script whatever the widgets say:
  no table is built and nothing is shown in its place.
\<close>

theorem load_data_no_files:
  "load_data [] = Inl ValueError \<and> (\<forall>u. app [] u = Inl ValueError)"
  by (simp add: load_data_def pd_concat_def app_def)

text \<open>
  C2. With at least one file, the loader either builds the unified table, whose number of
  rows is the sum of the numbers of rows of the files, or raises \<^verbatim>\<open>InvalidIndexError\<close>
  because the normalised labels of some file clash.
\<close>

theorem load_data_row_count:
  assumes "csvs \<noteq> []"
  shows "(\<exists>df. load_data csvs = Inr df
            \<and> length (rows df) = sum_list (map (\<lambda>f. length (rows (parsed f))) csvs))
       \<or> (load_data csvs = Inl InvalidIndexError
            \<and> (\<exists>f\<in>set csvs. \<not> distinct (columns (load_frame f))))"
proof -
  from assms have ne: "map load_frame csvs \<noteq> []" by simp
  from pd_concat_cases [OF ne] show ?thesis
  proof
    assume "\<exists>df. pd_concat (map load_frame csvs) = Inr df"
    then obtain df where df: "pd_concat (map load_frame csvs) = Inr df" ..
    from pd_concat_rows [OF df]
    have "length (rows df) = sum_list (map (\<lambda>f. length (rows (parsed f))) csvs)"
      by (simp add: comp_def rows_load_frame)
    with df show ?thesis by (auto simp: load_data_def)
  next
    assume "pd_concat (map load_frame csvs) = Inl InvalidIndexError
      \<and> (\<exists>f\<in>set (map load_frame csvs). \<not> distinct (columns f))"
    then show ?thesis by (auto simp: load_data_def)
  qed
qed

theorem load_data_row_count_witness:
  "[a_csv, b_csv] \<noteq> []
   \<and> (\<exists>df. load_data [a_csv, b_csv] = Inr df \<and> length (rows df) = 3 + 2)"
proof -
  have ne: "[a_csv, b_csv] \<noteq> []" by simp
  have rows_a: "length (rows (parsed a_csv)) = 3" by (simp add: a_csv_def)
  have rows_b: "length (rows (parsed b_csv)) = 2" by (simp add: b_csv_def)
  from load_data_row_count [OF ne] show ?thesis
    by (simp add: load_data_ab rows_a rows_b)
qed

section \<open>Normalised labels\<close>

lemma of_char_lower_char:
  "is_upper c \<Longrightarrow> (of_char (lower_char c) :: nat) = of_char c + 32"
  by (simp add: lower_char_def is_upper_def)

lemma lower_char_class:
  assumes "is_ascii c" "is_word (lower_char c)"
  shows "is_lower (lower_char c) \<or> is_digit (lower_char c) \<or> lower_char c = CHR ''_''"
proof (cases "is_upper c")
  case True
  then show ?thesis
    by (simp add: is_lower_def of_char_lower_char) (simp add: is_upper_def)
next
  case False
  with assms show ?thesis
    by (simp add: lower_char_def is_word_def)
qed

lemma lower_char_underscore: "lower_char c = CHR ''_'' \<longleftrightarrow> c = CHR ''_''"
proof (cases "is_upper c")
  case True
  then have "(of_char (lower_char c) :: nat) \<noteq> of_char (CHR ''_'')" "c \<noteq> CHR ''_''"
    by (auto simp: of_char_lower_char is_upper_def)
  then show ?thesis by auto
next
  case False
  then show ?thesis by (simp add: lower_char_def)
qed

lemma set_str_replace_nonword:
  "set (str_replace_nonword s) \<subseteq> {c \<in> set s. is_word c} \<union> {CHR ''_''}"
proof (induction s rule: str_replace_nonword.induct)
  case 1
  then show ?case by simp
next
  case (2 c cs)
  show ?case
  proof (cases "is_word c")
    case True
    with 2 show ?thesis by auto
  next
    case False
    with 2 have "set (str_replace_nonword (dropWhile (\<lambda>d. \<not> is_word d) cs))
      \<subseteq> {c \<in> set (dropWhile (\<lambda>d. \<not> is_word d) cs). is_word c} \<union> {CHR ''_''}" by simp
    moreover have "set (dropWhile (\<lambda>d. \<not> is_word d) cs) \<subseteq> set cs"
      by (rule set_dropWhileD [THEN subsetI]) 
    ultimately show ?thesis using False by auto
  qed
qed

lemma dropWhile_nonword_cases:
  "dropWhile (\<lambda>d. \<not> is_word d) cs = [] \<or>
   (\<exists>d ds. dropWhile (\<lambda>d. \<not> is_word d) cs = d # ds \<and> is_word d \<and> d \<in> set cs)"
proof (cases "dropWhile (\<lambda>d. \<not> is_word d) cs")
  case Nil
  then show ?thesis by simp
next
  case (Cons d ds)
  then have "is_word d" using hd_dropWhile [of "\<lambda>d. \<not> is_word d" cs] by auto
  moreover have "d \<in> set cs" using Cons set_dropWhileD [of d "\<lambda>d. \<not> is_word d" cs] by simp
  ultimately show ?thesis using Cons by simp
qed

lemma no_double_underscore:
  "CHR ''_'' \<notin> set s \<Longrightarrow> \<not> contains ''__'' (str_replace_nonword s)"
proof (induction s rule: str_replace_nonword.induct)
  case 1
  then show ?case by simp
next
  case (2 c cs)
  show ?case
  proof (cases "is_word c")
    case True
    with 2 show ?thesis by auto
  next
    case False
    let ?r = "dropWhile (\<lambda>d. \<not> is_word d) cs"
    have sub: "set ?r \<subseteq> set cs" by (rule set_dropWhileD [THEN subsetI])
    with 2 False have ih: "\<not> contains ''__'' (str_replace_nonword ?r)" by auto
    from dropWhile_nonword_cases [of cs] show ?thesis
    proof
      assume nil: "?r = []"
      from False have "str_replace_nonword (c # cs) = CHR ''_'' # str_replace_nonword ?r"
        by simp
      also have "\<dots> = ''_''" by (simp only: nil str_replace_nonword.simps)
      finally show ?thesis by simp
    next
      assume "\<exists>d ds. ?r = d # ds \<and> is_word d \<and> d \<in> set cs"
      then obtain d ds where r: "?r = d # ds" "is_word d" "d \<in> set cs" by blast
      with 2 have "d \<noteq> CHR ''_''" by auto
      with r ih False show ?thesis by simp
    qed
  qed
qed

text \<open>
  C3 (as amended). The labels of the unified table are the normalised forms of the
  labels of the files and of \<^verbatim>\<open>source_file\<close>. The normalised form of an ASCII label
  consists of lowercase letters, digits and underscores only, and when the label holds
  no underscore of its own the normalised form has no two underscores in a row.
\<close>

theorem normalize_name_pattern:
  assumes "list_all is_ascii s"
  shows "(load_data csvs = Inr df \<longrightarrow>
            set (columns df) =
              normalize_name ` (\<Union>f\<in>set csvs. insert ''source_file'' (set (columns (parsed f)))))
       \<and> (\<forall>c\<in>set (normalize_name s). is_lower c \<or> is_digit c \<or> c = CHR ''_'')
       \<and> (CHR ''_'' \<notin> set s \<longrightarrow> \<not> contains ''__'' (normalize_name s))"
proof (intro conjI)
  show "load_data csvs = Inr df \<longrightarrow>
      set (columns df) =
        normalize_name ` (\<Union>f\<in>set csvs. insert ''source_file'' (set (columns (parsed f))))"
    by (simp add: load_data_labels)
  show "\<forall>c\<in>set (normalize_name s). is_lower c \<or> is_digit c \<or> c = CHR ''_''"
  proof
    fix c assume "c \<in> set (normalize_name s)"
    with set_str_replace_nonword [of "str_lower s"]
    have "(c \<in> set (str_lower s) \<and> is_word c) \<or> c = CHR ''_''"
      by (auto simp: normalize_name_def)
    then show "is_lower c \<or> is_digit c \<or> c = CHR ''_''"
    proof
      assume "c \<in> set (str_lower s) \<and> is_word c"
      then obtain d where "d \<in> set s" "c = lower_char d" "is_word (lower_char d)"
        by (auto simp: str_lower_def)
      with assms lower_char_class [of d] show ?thesis by (auto simp: list_all_iff)
    qed simp
  qed
  show "CHR ''_'' \<notin> set s \<longrightarrow> \<not> contains ''__'' (normalize_name s)"
  proof
    assume no_us: "CHR ''_'' \<notin> set s"
    have "CHR ''_'' \<notin> set (str_lower s)"
    proof
      assume "CHR ''_'' \<in> set (str_lower s)"
      then obtain d where "d \<in> set s" "lower_char d = CHR ''_''"
        by (auto simp: str_lower_def)
      with no_us show False by (simp add: lower_char_underscore)
    qed
    then show "\<not> contains ''__'' (normalize_name s)"
      unfolding normalize_name_def by (rule no_double_underscore)
  qed
qed

theorem normalize_name_pattern_witness:
  "list_all is_ascii ''Gap (%)'' \<and> CHR ''_'' \<notin> set ''Gap (%)''
   \<and> load_data [a_csv, b_csv] = Inr ab_table
   \<and> columns ab_table = [''entity'', ''year'', ''gap_'', ''source_file'']
   \<and> normalize_name ''Gap (%)'' = ''gap_''
   \<and> list_all (\<lambda>c. is_lower c \<or> is_digit c \<or> c = CHR ''_'') (normalize_name ''Gap (%)'')
   \<and> \<not> contains ''__'' (normalize_name ''Gap (%)'')"
proof -
  have a: "list_all is_ascii ''Gap (%)''" by (simp add: is_ascii_def)
  have n: "normalize_name ''Gap (%)'' = ''gap_''" by code_simp
  have u: "CHR ''_'' \<notin> set ''Gap (%)''" by simp
  have c: "columns ab_table = [''entity'', ''year'', ''gap_'', ''source_file'']"
    by (simp add: ab_table_def)
  from normalize_name_pattern [OF a] u
  have "list_all (\<lambda>c. is_lower c \<or> is_digit c \<or> c = CHR ''_'') (normalize_name ''Gap (%)'')"
    and "\<not> contains ''__'' (normalize_name ''Gap (%)'')"
    unfolding list_all_iff by blast+
  with a u n c load_data_ab show ?thesis by (simp only: simp_thms)
qed

text \<open>
  C3 as stated fails: an underscore is a word character and is kept, so the run of
  non-word characters before it becomes a second underscore next to it.
\<close>

theorem normalize_name_double_underscore:
  "list_all is_ascii ''a _b'' \<and> normalize_name ''a _b'' = ''a__b''
   \<and> contains ''__'' (normalize_name ''a _b'')"
  by code_simp

section \<open>The filtered view\<close>

lemma select_source_view:
  assumes "select_source source df = Inr v"
  shows "columns v = columns df"
    and "rows v = (if source = ''All'' then rows df
                   else filter (\<lambda>r. cell_at (columns df) ''source_file'' r = Str source) (rows df))"
  using assms by (auto simp: select_source_def split: if_splits)

lemma select_source_again:
  assumes "select_source source df = Inr v1" "columns v = columns df"
    and "set (rows v) \<subseteq> set (rows v1)"
  shows "select_source source v = Inr v"
proof (cases "source = ''All''")
  case True
  then show ?thesis by (simp add: select_source_def)
next
  case False
  with assms(1) have sf: "''source_file'' \<in> set (columns df)"
    by (auto simp: select_source_def split: if_splits)
  from assms(1) False have "\<forall>r\<in>set (rows v1). cell_at (columns df) ''source_file'' r = Str source"
    by (auto simp: select_source_def split: if_splits)
  with assms(3) have "filter (\<lambda>r. cell_at (columns v) ''source_file'' r = Str source) (rows v) = rows v"
    by (auto simp: assms(2) filter_id_conv)
  with False sf show ?thesis by (simp add: select_source_def assms(2))
qed

lemma year_filter_view:
  assumes "year_filter rng df = Inr v"
  shows "columns v = columns df"
    and "rows v = filter (\<lambda>r. year_in_range rng (cell_at (columns df) ''year'' r)) (rows df)"
    and "\<not> has_str (column df ''year'')"
  using assms by (auto simp: year_filter_def split: if_splits)

lemma year_filter_defined:
  assumes "\<not> has_str (column df ''year'')"
  shows "year_filter rng df =
     Inr (df\<lparr>rows := filter (\<lambda>r. year_in_range rng (cell_at (columns df) ''year'' r)) (rows df)\<rparr>)"
  using assms by (simp add: year_filter_def)

lemma st_slider_value:
  assumes "st_slider lo hi choice = Inr rng"
  shows "lo < hi" and "lo \<le> fst rng" and "fst rng \<le> snd rng" and "snd rng \<le> hi"
    and "choice = None \<Longrightarrow> rng = (lo, hi)"
    and "choice = Some (a, b) \<Longrightarrow> lo \<le> a \<Longrightarrow> a \<le> b \<Longrightarrow> b \<le> hi \<Longrightarrow> rng = (a, b)"
  using assms by (auto simp: st_slider_def split: if_splits option.splits)

lemma st_slider_defined:
  assumes "lo < hi"
  shows "\<exists>rng. st_slider lo hi choice = Inr rng"
  using assms by (auto simp: st_slider_def split: option.splits)

lemma filter_section_cases:
  assumes "filter_section df source choice = Inr v"
  obtains v1 where "select_source source df = Inr v1" "''year'' \<notin> set (columns df)" "v = v1"
  | v1 lo hi rng where "select_source source df = Inr v1" "''year'' \<in> set (columns df)"
      "year_bounds v1 = Inr (lo, hi)" "st_slider lo hi choice = Inr rng"
      "year_filter rng v1 = Inr v"
proof -
  from assms obtain v1 where v1: "select_source source df = Inr v1"
    by (auto simp: filter_section_def split: sum.splits)
  then have cols: "columns v1 = columns df" by (rule select_source_view)
  show thesis
  proof (cases "''year'' \<in> set (columns df)")
    case False
    with assms v1 cols have "v = v1" by (simp add: filter_section_def)
    with v1 False show thesis by (rule that(1))
  next
    case True
    with assms v1 cols obtain lo hi rng where "year_bounds v1 = Inr (lo, hi)"
      "st_slider lo hi choice = Inr rng" "year_filter rng v1 = Inr v"
      by (auto simp: filter_section_def split: sum.splits)
    with v1 True show thesis by (rule that(2))
  qed
qed

lemma filter_section_subseq:
  assumes "filter_section df source choice = Inr v"
  shows "columns v = columns df \<and> subseq (rows v) (rows df)"
  using assms
proof (cases rule: filter_section_cases)
  case (1 v1)
  then show ?thesis using select_source_view [of source df v1] by auto
next
  case (2 v1 lo hi rng)
  have "subseq (rows v) (rows v1)" by (simp add: year_filter_view(2) [OF 2(5)])
  moreover have "subseq (rows v1) (rows df)"
    using select_source_view [OF 2(1)] by auto
  ultimately have "subseq (rows v) (rows df)" by (rule subseq_order.order_trans)
  then show ?thesis
    using select_source_view [OF 2(1)] by (simp add: year_filter_view(1) [OF 2(5)])
qed

lemma numbers_mem: "x \<in> set (numbers cs) \<longleftrightarrow> Num x \<in> set cs"
  by (induction cs rule: numbers.induct) auto

lemma fold_min_Min: "fold min rest (y::rat) = Min (set (y # rest))"
  by (simp only: Min.set_eq_fold)

lemma fold_max_Max: "fold max rest (y::rat) = Max (set (y # rest))"
  by (simp only: Max.set_eq_fold)

lemma year_bounds_Min_Max:
  assumes "year_bounds df = Inr (lo, hi)"
  shows "numbers (column df ''year'') \<noteq> []" "\<not> has_str (column df ''year'')"
    "lo = py_int (Min (set (numbers (column df ''year''))))"
    "hi = py_int (Max (set (numbers (column df ''year''))))"
  using assms
  by (auto simp: year_bounds_def Let_def fold_min_Min fold_max_Max split: if_splits list.splits)

lemma year_bounds_defined:
  assumes "numbers (column df ''year'') \<noteq> []" "\<not> has_str (column df ''year'')"
  shows "year_bounds df = Inr (py_int (Min (set (numbers (column df ''year'')))),
                               py_int (Max (set (numbers (column df ''year'')))))"
  using assms
  by (auto simp: year_bounds_def Let_def fold_min_Min fold_max_Max split: if_splits list.splits)

lemma py_int_of_int: "py_int (of_int n) = n"
  by (simp add: py_int_def)

lemma is_whole_Num: "is_whole v \<longleftrightarrow> (\<exists>n. v = Num (of_int n))"
proof
  assume "is_whole v"
  then obtain y where "v = Num y" "of_int (py_int y) = y"
    by (auto simp: is_whole_def split: cell.splits)
  then show "\<exists>n. v = Num (of_int n)" by metis
next
  assume "\<exists>n. v = Num (of_int n)"
  then show "is_whole v" by (auto simp: is_whole_def py_int_of_int)
qed

lemma whole_bounds:
  assumes yb: "year_bounds df = Inr (lo, hi)"
    and whole: "list_all is_whole (column df ''year'')"
    and v: "v \<in> set (column df ''year'')"
  shows "year_in_range (lo, hi) v"
proof -
  let ?Y = "set (numbers (column df ''year''))"
  from year_bounds_Min_Max [OF yb]
  have ne: "?Y \<noteq> {}" and lo: "lo = py_int (Min ?Y)" and hi: "hi = py_int (Max ?Y)"
    by auto
  have int_of: "of_int (py_int y) = y" if "y \<in> ?Y" for y
  proof -
    from that have "Num y \<in> set (column df ''year'')" by (simp add: numbers_mem)
    with whole have "is_whole (Num y)" by (simp add: list_all_iff)
    then show ?thesis by (simp add: is_whole_def)
  qed
  have "Min ?Y \<in> ?Y" "Max ?Y \<in> ?Y" using ne by (simp_all del: set_empty)
  then have lo': "of_int lo = Min ?Y" and hi': "of_int hi = Max ?Y"
    by (simp_all add: lo hi int_of)
  from whole v obtain n where n: "v = Num (of_int n)"
    by (auto simp: list_all_iff is_whole_Num)
  with v have "of_int n \<in> ?Y" by (simp add: numbers_mem)
  then have "Min ?Y \<le> of_int n" "of_int n \<le> Max ?Y" by simp_all
  then show ?thesis by (simp add: year_in_range_def n lo' hi')
qed

text \<open>
  C1 (as amended). Whatever the selector and the year range, the filtered view has the
  columns of the unified table and its rows are rows of the unified table, in their
  order, so it has at most as many rows. With the selector ``All'' it has all the rows
  when there is no year column, or when the slider stands at its full span and every
  row holds a whole number as its year.
\<close>

theorem filtered_view_rows:
  assumes "filter_section df source choice = Inr v"
  shows "columns v = columns df \<and> subseq (rows v) (rows df)
       \<and> length (rows v) \<le> length (rows df)
       \<and> (source = ''All''
            \<and> (''year'' \<notin> set (columns df)
                 \<or> (full_span df choice \<and> list_all is_whole (column df ''year'')))
          \<longrightarrow> rows v = rows df)"
proof -
  from filter_section_subseq [OF assms]
  have sub: "columns v = columns df" "subseq (rows v) (rows df)" by simp_all
  from sub(2) have len: "length (rows v) \<le> length (rows df)" by (rule list_emb_length)
  have "rows v = rows df"
    if all: "source = ''All''"
      and span: "''year'' \<notin> set (columns df)
        \<or> (full_span df choice \<and> list_all is_whole (column df ''year''))"
    using assms
  proof (cases rule: filter_section_cases)
    case (1 v1)
    with all show ?thesis by (simp add: select_source_def)
  next
    case (2 v1 lo hi rng)
    with all have v1: "v1 = df" by (simp add: select_source_def)
    from 2(2) span have fs: "full_span df choice"
      and whole: "list_all is_whole (column df ''year'')" by simp_all
    have rng: "rng = (lo, hi)"
    proof (cases choice)
      case None
      then show ?thesis by (rule st_slider_value(5) [OF 2(4)])
    next
      case (Some r)
      with fs 2(3) have r: "choice = Some (lo, hi)" by (simp add: full_span_def v1)
      from st_slider_value(1) [OF 2(4)] show ?thesis
        by (intro st_slider_value(6) [OF 2(4) r]) simp_all
    qed
    have "year_in_range (lo, hi) (cell_at (columns df) ''year'' r)" if "r \<in> set (rows df)" for r
    proof (rule whole_bounds [OF _ whole])
      show "year_bounds df = Inr (lo, hi)" using 2(3) by (simp add: v1)
      show "cell_at (columns df) ''year'' r \<in> set (column df ''year'')"
        using that by (simp add: column_def)
    qed
    then show ?thesis
      using year_filter_view(2) [OF 2(5)] by (simp add: rng v1 filter_id_conv)
  qed
  with sub len show ?thesis by blast
qed

theorem filtered_view_rows_witness:
  "filter_section ab_table ''All'' None = Inr ab_table
   \<and> full_span ab_table None \<and> list_all is_whole (column ab_table ''year'')
   \<and> subseq (rows ab_table) (rows ab_table) \<and> rows ab_table = rows ab_table"
proof -
  have f: "filter_section ab_table ''All'' None = Inr ab_table" by code_simp
  have s: "full_span ab_table None" by (simp add: full_span_def)
  have w: "list_all is_whole (column ab_table ''year'')" by code_simp
  from filtered_view_rows [OF f] s w show ?thesis by (simp add: f)
qed

text \<open>
  C1 as stated fails: in the table built from \<^verbatim>\<open>a.csv\<close> and \<^verbatim>\<open>c.csv\<close>, the rows of
  \<^verbatim>\<open>c.csv\<close> have no year; with the selector ``All'' and the slider at its full span
  (2000 to 2010) the comparison with a missing year is false and the view keeps three of
  the five rows.
\<close>

theorem filtered_view_drops_missing_years:
  "load_data [a_csv, c_csv] = Inr ac_table
   \<and> length (rows ac_table) = 5
   \<and> year_slider_bounds ac_table ''All'' = Inr (2000, 2010)
   \<and> full_span ac_table None
   \<and> filter_section ac_table ''All'' None =
       Inr \<lparr>columns = [''entity'', ''year'', ''gap_'', ''source_file''],
            rows = [[Str ''Alpha'', Num 2000, Num 10, Str ''a.csv''],
                    [Str ''Beta'', Num 2010, Num 20, Str ''a.csv''],
                    [Str ''Alpha'', Num 2010, Num 30, Str ''a.csv'']]\<rparr>"
  by code_simp

lemma year_in_range_iff:
  "year_in_range rng v \<longleftrightarrow> (\<exists>y. v = Num y \<and> of_int (fst rng) \<le> y \<and> y \<le> of_int (snd rng))"
  by (cases v) (simp_all add: year_in_range_def)

text \<open>
  C8 (as amended). Let the table have a year column, and let the rows matching the
  selector hold no string and at least one number as their year. Then the bounds handed
  to the year slider are the whole parts of the least and the greatest year among the
  rows matching the selector (the least and the greatest year themselves when those are
  whole numbers). When the two bounds differ, the slider returns a pair within them (the
  pair chosen, if it is one the slider offers; the two bounds, if the slider was not
  touched), and the filtered view keeps exactly the rows matching the selector whose
  year lies between the two ends of that pair, ends included.
\<close>

theorem year_slider_and_filter:
  assumes "''year'' \<in> set (columns df)"
    and "select_source source df = Inr v"
    and "\<not> has_str (column v ''year'')"
    and "numbers (column v ''year'') \<noteq> []"
  shows "\<exists>lo hi.
      year_slider_bounds df source = Inr (lo, hi)
    \<and> lo = py_int (Min (set (numbers (column v ''year''))))
    \<and> hi = py_int (Max (set (numbers (column v ''year''))))
    \<and> (list_all (\<lambda>c. is_whole c \<or> c = NaN) (column v ''year'')
         \<longrightarrow> of_int lo = Min (set (numbers (column v ''year'')))
           \<and> of_int hi = Max (set (numbers (column v ''year''))))
    \<and> rows v = (if source = ''All'' then rows df
                 else filter (\<lambda>r. cell_at (columns df) ''source_file'' r = Str source) (rows df))
    \<and> (lo < hi \<longrightarrow>
         (\<exists>rng w. st_slider lo hi choice = Inr rng
            \<and> lo \<le> fst rng \<and> fst rng \<le> snd rng \<and> snd rng \<le> hi
            \<and> (choice = None \<longrightarrow> rng = (lo, hi))
            \<and> (\<forall>a b. choice = Some (a, b) \<and> lo \<le> a \<and> a \<le> b \<and> b \<le> hi \<longrightarrow> rng = (a, b))
            \<and> filter_section df source choice = Inr w \<and> columns w = columns df
            \<and> rows w = filter (\<lambda>r. \<exists>y. cell_at (columns df) ''year'' r = Num y
                  \<and> of_int (fst rng) \<le> y \<and> y \<le> of_int (snd rng)) (rows v)))"
proof -
  let ?Y = "set (numbers (column v ''year''))"
  let ?lo = "py_int (Min ?Y)" and ?hi = "py_int (Max ?Y)"
  from assms(2) have cols: "columns v = columns df" by (rule select_source_view)
  from assms(3,4) have yb: "year_bounds v = Inr (?lo, ?hi)" by (simp add: year_bounds_defined)
  with assms(2) have sb: "year_slider_bounds df source = Inr (?lo, ?hi)"
    by (simp add: year_slider_bounds_def)
  have whole: "of_int ?lo = Min ?Y \<and> of_int ?hi = Max ?Y"
    if w: "list_all (\<lambda>c. is_whole c \<or> c = NaN) (column v ''year'')"
  proof -
    have int_of: "of_int (py_int y) = y" if "y \<in> ?Y" for y
    proof -
      from that have "Num y \<in> set (column v ''year'')" by (simp add: numbers_mem)
      with w have "is_whole (Num y)" by (auto simp: list_all_iff)
      then show ?thesis by (simp add: is_whole_def)
    qed
    from assms(4) have "?Y \<noteq> {}" by simp
    then have "Min ?Y \<in> ?Y" "Max ?Y \<in> ?Y" by (simp_all del: set_empty)
    then show ?thesis by (simp add: int_of)
  qed
  have view: "\<exists>rng w. st_slider ?lo ?hi choice = Inr rng
      \<and> ?lo \<le> fst rng \<and> fst rng \<le> snd rng \<and> snd rng \<le> ?hi
      \<and> (choice = None \<longrightarrow> rng = (?lo, ?hi))
      \<and> (\<forall>a b. choice = Some (a, b) \<and> ?lo \<le> a \<and> a \<le> b \<and> b \<le> ?hi \<longrightarrow> rng = (a, b))
      \<and> filter_section df source choice = Inr w \<and> columns w = columns df
      \<and> rows w = filter (\<lambda>r. \<exists>y. cell_at (columns df) ''year'' r = Num y
            \<and> of_int (fst rng) \<le> y \<and> y \<le> of_int (snd rng)) (rows v)"
    if lt: "?lo < ?hi"
  proof -
    from st_slider_defined [OF lt] obtain rng where rng: "st_slider ?lo ?hi choice = Inr rng"
      by blast
    let ?w = "v\<lparr>rows := filter (\<lambda>r. year_in_range rng (cell_at (columns v) ''year'' r)) (rows v)\<rparr>"
    from assms(3) have yf: "year_filter rng v = Inr ?w" by (rule year_filter_defined)
    have fs: "filter_section df source choice = Inr ?w"
      using assms(1,2) yb cols rng yf by (simp add: filter_section_def)
    have rows_w: "rows ?w = filter (\<lambda>r. \<exists>y. cell_at (columns df) ''year'' r = Num y
            \<and> of_int (fst rng) \<le> y \<and> y \<le> of_int (snd rng)) (rows v)"
      by (simp add: cols year_in_range_iff)
    have "columns ?w = columns df" by (simp add: cols)
    with rng fs rows_w st_slider_value [OF rng] show ?thesis by blast
  qed
  from sb whole view select_source_view(2) [OF assms(2)] show ?thesis by blast
qed

theorem year_slider_and_filter_witness:
  "''year'' \<in> set (columns ac_table)
   \<and> select_source ''a.csv'' ac_table = Inr (ac_table\<lparr>rows := take 3 (rows ac_table)\<rparr>)
   \<and> \<not> has_str (column (ac_table\<lparr>rows := take 3 (rows ac_table)\<rparr>) ''year'')
   \<and> numbers (column (ac_table\<lparr>rows := take 3 (rows ac_table)\<rparr>) ''year'') = [2000, 2010, 2010]
   \<and> list_all (\<lambda>c. is_whole c \<or> c = NaN) (column (ac_table\<lparr>rows := take 3 (rows ac_table)\<rparr>) ''year'')
   \<and> year_slider_bounds ac_table ''a.csv'' = Inr (2000, 2010)
   \<and> (2000 :: int) < 2010
   \<and> st_slider 2000 2010 (Some (2005, 2010)) = Inr (2005, 2010)
   \<and> (\<exists>w. filter_section ac_table ''a.csv'' (Some (2005, 2010)) = Inr w
          \<and> rows w = [[Str ''Beta'', Num 2010, Num 20, Str ''a.csv''],
                       [Str ''Alpha'', Num 2010, Num 30, Str ''a.csv'']])"
proof -
  let ?v = "ac_table\<lparr>rows := take 3 (rows ac_table)\<rparr>"
  have y: "''year'' \<in> set (columns ac_table)" by (simp add: ac_table_def)
  have s: "select_source ''a.csv'' ac_table = Inr ?v" by code_simp
  have h: "\<not> has_str (column ?v ''year'')" by code_simp
  have n: "numbers (column ?v ''year'') = [2000, 2010, 2010]" by code_simp
  then have ne: "numbers (column ?v ''year'') \<noteq> []" by simp
  have w: "list_all (\<lambda>c. is_whole c \<or> c = NaN) (column ?v ''year'')" by code_simp
  have b: "year_slider_bounds ac_table ''a.csv'' = Inr (2000, 2010)" by code_simp
  have sl: "st_slider 2000 2010 (Some (2005, 2010)) = Inr (2005, 2010)"
    by (simp add: st_slider_def)
  have f: "filter_section ac_table ''a.csv'' (Some (2005, 2010))
     = Inr (ac_table\<lparr>rows := [[Str ''Beta'', Num 2010, Num 20, Str ''a.csv''],
                       [Str ''Alpha'', Num 2010, Num 30, Str ''a.csv'']]\<rparr>)" by code_simp
  from year_slider_and_filter [OF y s h ne, of "Some (2005, 2010)"] y s h n w b sl f
  show ?thesis by simp
qed

text \<open>
  C8 as stated fails. In the table built from \<^verbatim>\<open>a.csv\<close> and \<^verbatim>\<open>c.csv\<close> there is a year
  column, but no row of \<^verbatim>\<open>c.csv\<close> has a year: with that selector \<^verbatim>\<open>int(NaN)\<close> raises and
  there is no slider. The bounds are whole parts: a least year of 2000.5 gives the lower
  bound 2000. And when all the rows are of one year the slider raises, so that no row is
  kept or dropped.
\<close>

theorem year_slider_no_bounds:
  "''year'' \<in> set (columns ac_table)
   \<and> select_source ''c.csv'' ac_table = Inr (ac_table\<lparr>rows := drop 3 (rows ac_table)\<rparr>)
   \<and> year_slider_bounds ac_table ''c.csv'' = Inl ValueError
   \<and> app [a_csv, c_csv] (ui_start\<lparr>pick_dataset := ''c.csv''\<rparr>) = Inl ValueError
   \<and> year_slider_bounds h_table ''All'' = Inr (2000, 2003)
   \<and> Min (set (numbers (column h_table ''year''))) = 4001 / 2
   \<and> year_slider_bounds s_table ''All'' = Inr (2010, 2010)
   \<and> filter_section s_table ''All'' None = Inl StreamlitAPIException"
  by code_simp

lemma filter_section_engine:
  assumes "filter_section df source choice = Inr w"
  shows "\<exists>rng. filter_engine df source rng = Inr w
    \<and> (''year'' \<in> set (columns df) \<longrightarrow>
         (\<exists>lo hi. year_slider_bounds df source = Inr (lo, hi) \<and> st_slider lo hi choice = Inr rng))"
  using assms
proof (cases rule: filter_section_cases)
  case (1 v1)
  from 1(1) have "columns v1 = columns df" by (rule select_source_view)
  with 1 show ?thesis by (simp add: filter_engine_def)
next
  case (2 v1 lo hi rng)
  from 2(1) have "columns v1 = columns df" by (rule select_source_view)
  with 2 have "filter_engine df source rng = Inr w"
    "year_slider_bounds df source = Inr (lo, hi)"
    by (simp_all add: filter_engine_def year_slider_bounds_def)
  with 2(4) show ?thesis by blast
qed

lemma filter_engine_again:
  assumes "filter_engine df source rng = Inr v"
  shows "filter_engine v source rng = Inr v"
proof -
  from assms obtain v1 where v1: "select_source source df = Inr v1"
    by (auto simp: filter_engine_def split: sum.splits)
  then have cols1: "columns v1 = columns df" by (rule select_source_view)
  show ?thesis
  proof (cases "''year'' \<in> set (columns df)")
    case False
    with assms v1 cols1 have v: "v = v1" by (simp add: filter_engine_def)
    with v1 cols1 have "select_source source v = Inr v"
      using select_source_again [of source df v1 v] by simp
    with False v cols1 show ?thesis by (simp add: filter_engine_def)
  next
    case True
    with assms v1 cols1 have yf: "year_filter rng v1 = Inr v" by (simp add: filter_engine_def)
    note view = year_filter_view [OF yf]
    have cols: "columns v = columns df" by (simp add: view(1) cols1)
    have sub: "set (rows v) \<subseteq> set (rows v1)" by (auto simp: view(2))
    from v1 cols sub have sel: "select_source source v = Inr v" by (rule select_source_again)
    have "set (column v ''year'') \<subseteq> set (column v1 ''year'')"
      using sub by (auto simp: column_def cols cols1)
    with view(3) have no_str: "\<not> has_str (column v ''year'')"
      by (auto simp: has_str_def list_ex_iff)
    have "filter (\<lambda>r. year_in_range rng (cell_at (columns v) ''year'' r)) (rows v) = rows v"
      by (auto simp: view(2) cols cols1 filter_id_conv)
    with no_str have "year_filter rng v = Inr v" by (simp add: year_filter_def)
    with sel True cols show ?thesis by (simp add: filter_engine_def)
  qed
qed

text \<open>
  C9. The filter, as a function of the table, the selector and the pair of year bounds,
  is idempotent: applied to the view it has returned, with the same selector and the same
  pair, it returns that view. Every view the filter section computes is a value of this
  function, at the pair its slider returns when there is a year column.
\<close>

theorem filter_engine_idempotent:
  "(filter_engine df source rng = Inr v \<longrightarrow> filter_engine v source rng = Inr v)
   \<and> (filter_section df source choice = Inr w \<longrightarrow>
        (\<exists>r. filter_engine df source r = Inr w
           \<and> (''year'' \<in> set (columns df) \<longrightarrow>
                (\<exists>lo hi. year_slider_bounds df source = Inr (lo, hi)
                   \<and> st_slider lo hi choice = Inr r))))"
  using filter_engine_again [of df source rng v] filter_section_engine [of df source choice w]
  by blast

theorem filter_engine_idempotent_witness:
  "filter_section ab_table ''a.csv'' (Some (2005, 2010)) =
     Inr (ab_table\<lparr>rows := [[Str ''Beta'', Num 2010, Num 20, Str ''a.csv''],
                             [Str ''Alpha'', Num 2010, Num 30, Str ''a.csv'']]\<rparr>)
   \<and> filter_engine ab_table ''a.csv'' (2005, 2010) =
     Inr (ab_table\<lparr>rows := [[Str ''Beta'', Num 2010, Num 20, Str ''a.csv''],
                             [Str ''Alpha'', Num 2010, Num 30, Str ''a.csv'']]\<rparr>)
   \<and> filter_engine (ab_table\<lparr>rows := [[Str ''Beta'', Num 2010, Num 20, Str ''a.csv''],
                             [Str ''Alpha'', Num 2010, Num 30, Str ''a.csv'']]\<rparr>)
        ''a.csv'' (2005, 2010) =
     Inr (ab_table\<lparr>rows := [[Str ''Beta'', Num 2010, Num 20, Str ''a.csv''],
                             [Str ''Alpha'', Num 2010, Num 30, Str ''a.csv'']]\<rparr>)
   \<and> filter_engine ab_table ''All'' (2001, 2004) = Inr (ab_table\<lparr>rows := []\<rparr>)
   \<and> filter_engine (ab_table\<lparr>rows := []\<rparr>) ''All'' (2001, 2004) = Inr (ab_table\<lparr>rows := []\<rparr>)"
proof -
  let ?v = "ab_table\<lparr>rows := [[Str ''Beta'', Num 2010, Num 20, Str ''a.csv''],
                             [Str ''Alpha'', Num 2010, Num 30, Str ''a.csv'']]\<rparr>"
  have s: "filter_section ab_table ''a.csv'' (Some (2005, 2010)) = Inr ?v" by code_simp
  have f: "filter_engine ab_table ''a.csv'' (2005, 2010) = Inr ?v" by code_simp
  have e: "filter_engine ab_table ''All'' (2001, 2004) = Inr (ab_table\<lparr>rows := []\<rparr>)"
    by code_simp
  from filter_engine_idempotent [of ab_table "''a.csv''" "(2005, 2010)" ?v] f
  have f2: "filter_engine ?v ''a.csv'' (2005, 2010) = Inr ?v" by blast
  from filter_engine_idempotent [of ab_table "''All''" "(2001, 2004)" "ab_table\<lparr>rows := []\<rparr>"] e
  have e2: "filter_engine (ab_table\<lparr>rows := []\<rparr>) ''All'' (2001, 2004) = Inr (ab_table\<lparr>rows := []\<rparr>)"
    by blast
  from s f f2 e e2 show ?thesis by (simp only: simp_thms)
qed

section \<open>Grouping\<close>

lemma add_to_group_keys: "fst ` set (add_to_group k v gs) = insert k (fst ` set gs)"
proof (induction gs)
  case Nil
  then show ?case by simp
next
  case (Cons g gs)
  obtain k' vs where g: "g = (k', vs)" by (cases g)
  show ?case
  proof (cases "k = k'")
    case True
    then show ?thesis by (simp add: g)
  next
    case False
    with Cons show ?thesis by (simp add: g insert_commute)
  qed
qed

lemma add_to_group_distinct:
  "distinct (map fst gs) \<Longrightarrow> distinct (map fst (add_to_group k v gs))"
proof (induction gs)
  case Nil
  then show ?case by simp
next
  case (Cons g gs)
  obtain k' vs where g: "g = (k', vs)" by (cases g)
  from Cons show ?case
    using add_to_group_keys [of k v gs] by (auto simp: g)
qed

lemma map_of_add_to_group:
  "map_of (add_to_group k v gs) k' =
     (if k' = k then Some ((case map_of gs k of None \<Rightarrow> [] | Some vs \<Rightarrow> vs) @ [v])
      else map_of gs k')"
  by (induction gs) auto

lemma group_rows_distinct:
  "distinct (map fst gs) \<Longrightarrow> distinct (map fst (group_rows ps gs))"
  by (induction ps gs rule: group_rows.induct) (simp_all add: add_to_group_distinct)

lemma group_rows_keys:
  "fst ` set (group_rows ps gs) = fst ` set gs \<union> (fst ` set ps - {NaN})"
  by (induction ps gs rule: group_rows.induct) (auto simp: add_to_group_keys)

lemma map_of_group_rows:
  "map_of (group_rows ps gs) k =
     (if k = NaN \<or> filter (\<lambda>p. fst p = k) ps = [] then map_of gs k
      else Some ((case map_of gs k of None \<Rightarrow> [] | Some vs \<Rightarrow> vs)
                 @ map snd (filter (\<lambda>p. fst p = k) ps)))"
proof (induction ps gs rule: group_rows.induct)
  case (1 gs)
  then show ?case by simp
next
  case (2 k' v ps gs)
  show ?case
  proof (cases "k' = NaN")
    case True
    with 2 show ?thesis by auto
  next
    case False
    with 2 show ?thesis by (auto simp: map_of_add_to_group)
  qed
qed

lemma zip_columns:
  "zip (column df by) (column df metric) =
     map (\<lambda>r. (cell_at (columns df) by r, cell_at (columns df) metric r)) (rows df)"
  by (simp add: column_def zip_map_map zip_same_conv_map)

lemma group_values_zip:
  "map snd (filter (\<lambda>p. fst p = k) (zip (column df by) (column df metric))) =
     group_values df by metric k"
  by (simp add: zip_columns group_values_def filter_map comp_def)

lemma group_values_empty:
  "group_values df by metric k = [] \<longleftrightarrow> k \<notin> set (column df by)"
  by (auto simp: group_values_def column_def filter_empty_conv)

lemma groupby_groups:
  assumes "groupby df by metric = Inr gs"
  shows "distinct (map fst gs)"
    and "fst ` set gs = set (column df by) - {NaN}"
    and "(k, vs) \<in> set gs \<longleftrightarrow> k \<noteq> NaN \<and> k \<in> set (column df by) \<and> vs = group_values df by metric k"
    and "sorted (map (\<lambda>g. sort_rank (fst g)) gs)"
proof -
  let ?ps = "zip (column df by) (column df metric)"
  let ?raw = "group_rows ?ps []"
  from assms have gs: "gs = sort_key (\<lambda>g. sort_rank (fst g)) ?raw"
    by (auto simp: groupby_def split: if_splits)
  have d: "distinct (map fst ?raw)" by (simp add: group_rows_distinct)
  then show dist: "distinct (map fst gs)" by (simp add: gs distinct_map)
  have keys: "fst ` set ?raw = set (column df by) - {NaN}"
  proof -
    have "fst ` set ?ps = set (column df by)"
      unfolding zip_columns by (simp add: image_image column_def)
    then show ?thesis by (simp add: group_rows_keys)
  qed
  then show "fst ` set gs = set (column df by) - {NaN}" by (simp add: gs)
  have "(k, vs) \<in> set gs \<longleftrightarrow> map_of ?raw k = Some vs"
    using d by (simp add: gs)
  also have "\<dots> \<longleftrightarrow> k \<noteq> NaN \<and> k \<in> set (column df by) \<and> vs = group_values df by metric k"
  proof (cases "k = NaN \<or> k \<notin> set (column df by)")
    case True
    then have "k \<notin> fst ` set ?raw" using keys by auto
    then have "map_of ?raw k = None" by (simp add: map_of_eq_None_iff)
    with True show ?thesis by auto
  next
    case False
    then have ne: "group_values df by metric k \<noteq> []" by (simp add: group_values_empty)
    then have "filter (\<lambda>p. fst p = k) ?ps \<noteq> []"
      using group_values_zip [of k df "by" metric] by auto
    with False have "map_of ?raw k = Some (group_values df by metric k)"
      by (simp add: map_of_group_rows group_values_zip)
    with False show ?thesis by auto
  qed
  finally show "(k, vs) \<in> set gs \<longleftrightarrow>
      k \<noteq> NaN \<and> k \<in> set (column df by) \<and> vs = group_values df by metric k" .
  show "sorted (map (\<lambda>g. sort_rank (fst g)) gs)" by (simp add: gs)
qed

lemma mean_groups_Inr:
  "mean_groups gs = Inr s \<longleftrightarrow>
     (\<forall>g\<in>set gs. \<not> has_str (snd g)) \<and> s = map (\<lambda>g. (fst g, mean (numbers (snd g)))) gs"
proof (induction gs arbitrary: s)
  case Nil
  then show ?case by auto
next
  case (Cons g gs)
  obtain k vs where g: "g = (k, vs)" by (cases g)
  show ?case
  proof (cases "has_str vs")
    case True
    then show ?thesis by (simp add: g mean_skipna_def)
  next
    case False
    show ?thesis
    proof (cases "mean_groups gs")
      case (Inl e)
      with Cons [of "map (\<lambda>g. (fst g, mean (numbers (snd g)))) gs"] False show ?thesis
        by (auto simp: g mean_skipna_def)
    next
      case (Inr s')
      with Cons [of s'] False show ?thesis
        by (auto simp: g mean_skipna_def)
    qed
  qed
qed

lemma groupby_mean_series:
  assumes "groupby_mean df by metric = Inr s"
  shows "distinct (map fst s)"
    and "fst ` set s = set (column df by) - {NaN}"
    and "(k, m) \<in> set s \<longleftrightarrow>
           k \<noteq> NaN \<and> k \<in> set (column df by) \<and> m = mean (numbers (group_values df by metric k))"
    and "length s = card (set (column df by) - {NaN})"
    and "sorted (map (\<lambda>e. sort_rank (fst e)) s)"
proof -
  from assms obtain gs where gs: "groupby df by metric = Inr gs" and mg: "mean_groups gs = Inr s"
    by (auto simp: groupby_mean_def split: sum.splits)
  from mg have s: "s = map (\<lambda>g. (fst g, mean (numbers (snd g)))) gs"
    by (simp add: mean_groups_Inr)
  have keys: "map fst s = map fst gs" by (simp add: s comp_def)
  show d: "distinct (map fst s)" using groupby_groups(1) [OF gs] by (simp add: keys)
  have "fst ` set s = set (map fst s)" by simp
  also have "\<dots> = fst ` set gs" by (simp only: keys set_map)
  finally show k: "fst ` set s = set (column df by) - {NaN}"
    using groupby_groups(2) [OF gs] by simp
  have "(k, m) \<in> set s \<longleftrightarrow> (\<exists>vs. (k, vs) \<in> set gs \<and> m = mean (numbers vs))"
    by (force simp: s)
  then show "(k, m) \<in> set s \<longleftrightarrow>
      k \<noteq> NaN \<and> k \<in> set (column df by) \<and> m = mean (numbers (group_values df by metric k))"
    by (auto simp: groupby_groups(3) [OF gs])
  have "length s = length (map fst s)" by simp
  also have "\<dots> = card (set (map fst s))" using d by (simp only: distinct_card)
  finally show "length s = card (set (column df by) - {NaN})" using k by simp
  show "sorted (map (\<lambda>e. sort_rank (fst e)) s)"
    using groupby_groups(4) [OF gs] by (simp add: s comp_def)
qed

lemma has_str_subset: "set vs \<subseteq> set ws \<Longrightarrow> \<not> has_str ws \<Longrightarrow> \<not> has_str vs"
  by (auto simp: has_str_def list_ex_iff)

lemma group_values_subset: "set (group_values df by metric k) \<subseteq> set (column df metric)"
  by (auto simp: group_values_def column_def)

lemma groupby_mean_defined:
  assumes "by \<in> set (columns df)" "metric \<in> set (columns df)" "\<not> has_str (column df metric)"
  shows "\<exists>s. groupby_mean df by metric = Inr s"
proof -
  from assms(1,2) obtain gs where gs: "groupby df by metric = Inr gs"
    by (simp add: groupby_def)
  have "\<not> has_str (snd g)" if "g \<in> set gs" for g
  proof -
    from that groupby_groups(3) [OF gs, of "fst g" "snd g"]
    have "snd g = group_values df by metric (fst g)" by simp
    with group_values_subset [of df "by" metric "fst g"] assms(3) show ?thesis
      by (simp add: has_str_subset)
  qed
  then have "mean_groups gs = Inr (map (\<lambda>g. (fst g, mean (numbers (snd g)))) gs)"
    by (simp add: mean_groups_Inr)
  with gs show ?thesis by (simp add: groupby_mean_def)
qed

section \<open>Sorting a series\<close>

lemma set_sort_values: "set (sort_values ascending s) = set s"
  by (auto simp: sort_values_def Let_def)

lemma length_sort_values: "length (sort_values ascending s) = length s"
  using sum_length_filter_compl [of is_missing s] by (simp add: sort_values_def Let_def)

lemma map_snd_present:
  assumes "\<forall>e\<in>set es. \<not> is_missing e"
  shows "map snd es = map Some (map (\<lambda>e. the (snd e)) es)"
  using assms by (induction es) (auto simp: is_missing_def)

lemma map_snd_missing:
  assumes "\<forall>e\<in>set es. is_missing e"
  shows "map snd es = replicate (length es) None"
  using assms by (induction es) (auto simp: is_missing_def)

lemma sort_values_order:
  "\<exists>xs n. map snd (sort_values ascending s) = map Some xs @ replicate n None
     \<and> (if ascending then sorted xs else sorted_wrt (\<lambda>a b. b \<le> a) xs)"
proof -
  let ?p = "filter (\<lambda>e. \<not> is_missing e) s" and ?m = "filter is_missing s"
  let ?key = "\<lambda>e :: cell \<times> rat option. the (snd e)"
  let ?sorted = "if ascending then sort_key ?key ?p else rev (sort_key ?key (rev ?p))"
  have "\<forall>e\<in>set ?sorted. \<not> is_missing e" by simp
  then have 1: "map snd ?sorted = map Some (map ?key ?sorted)" by (rule map_snd_present)
  have 2: "map snd ?m = replicate (length ?m) None" by (rule map_snd_missing) simp
  have 3: "if ascending then sorted (map ?key ?sorted)
           else sorted_wrt (\<lambda>a b. b \<le> a) (map ?key ?sorted)"
    by (simp add: rev_map [symmetric] sorted_wrt_rev del: rev_map)
  have "sort_values ascending s = ?sorted @ ?m" by (simp add: sort_values_def Let_def)
  then have "map snd (sort_values ascending s) = map Some (map ?key ?sorted) @ replicate (length ?m) None"
    using 1 2 by simp
  with 3 show ?thesis by blast
qed

lemma head_order:
  assumes "map snd s = map Some xs @ replicate n None"
    and "if ascending then sorted xs else sorted_wrt (\<lambda>a b. b \<le> a) xs"
  shows "\<exists>ys k. map snd (head top_n s) = map Some ys @ replicate k None
     \<and> (if ascending then sorted ys else sorted_wrt (\<lambda>a b. b \<le> a) ys)"
proof -
  have "map snd (head top_n s) = take top_n (map snd s)" by (simp add: head_def take_map)
  also have "\<dots> = map Some (take top_n xs) @ replicate (min n (top_n - length xs)) None"
    by (simp add: assms(1) take_map)
  finally have "map snd (head top_n s) =
    map Some (take top_n xs) @ replicate (min n (top_n - length xs)) None" .
  moreover from assms(2)
  have "if ascending then sorted (take top_n xs) else sorted_wrt (\<lambda>a b. b \<le> a) (take top_n xs)"
    by (auto simp: sorted_wrt_take)
  ultimately show ?thesis by blast
qed

section \<open>The renderers\<close>

lemma category_column_defined:
  assumes "c \<in> set (columns df)"
  shows "\<exists>cat. category_column df = Inr cat \<and> cat \<in> set (columns df)"
  using assms by (cases "columns df") (auto simp: category_column_def)

text \<open>
  C4. For a metric column that holds no string, the Bar Chart branch produces a series
  whose length is the smaller of \<open>top_n\<close> and the number of distinct, non-missing values
  of the category column, and whose means are in descending order for ``Highest First''
  and in ascending order otherwise; the means that are themselves missing (groups without
  any metric value) come after the others.
\<close>

theorem bar_chart_series:
  assumes "metric \<in> set (columns df)" and "\<not> has_str (column df metric)"
  shows "\<exists>cat s xs n.
      category_column df = Inr cat
    \<and> bar_chart df (Some metric) top_n srt = Inr (BarFig s)
    \<and> length s = min top_n (card (set (column df cat) - {NaN}))
    \<and> map snd s = map Some xs @ replicate n None
    \<and> (if srt then sorted_wrt (\<lambda>a b. b \<le> a) xs else sorted xs)"
proof -
  from category_column_defined [OF assms(1)] obtain cat
    where cat: "category_column df = Inr cat" "cat \<in> set (columns df)" by blast
  from groupby_mean_defined [OF cat(2) assms] obtain agg
    where agg: "groupby_mean df cat metric = Inr agg" by blast
  let ?s = "head top_n (sort_values (\<not> srt) agg)"
  have bar: "bar_chart df (Some metric) top_n srt = Inr (BarFig ?s)"
    by (simp add: bar_chart_def cat agg)
  have len: "length ?s = min top_n (card (set (column df cat) - {NaN}))"
    by (simp add: head_def length_sort_values groupby_mean_series(4) [OF agg] min.commute)
  from sort_values_order [of "\<not> srt" agg] obtain xs n
    where "map snd (sort_values (\<not> srt) agg) = map Some xs @ replicate n None"
      "if \<not> srt then sorted xs else sorted_wrt (\<lambda>a b. b \<le> a) xs" by blast
  from head_order [OF this, of top_n] obtain ys k
    where "map snd ?s = map Some ys @ replicate k None"
      "if \<not> srt then sorted ys else sorted_wrt (\<lambda>a b. b \<le> a) ys" by blast
  then have "map snd ?s = map Some ys @ replicate k None
      \<and> (if srt then sorted_wrt (\<lambda>a b. b \<le> a) ys else sorted ys)" by auto
  with cat(1) bar len show ?thesis by blast
qed

theorem bar_chart_series_witness:
  "''gap_'' \<in> set (columns ab_table) \<and> \<not> has_str (column ab_table ''gap_'')
   \<and> category_column ab_table = Inr ''entity''
   \<and> card (set (column ab_table ''entity'') - {NaN}) = 3
   \<and> bar_chart ab_table (Some ''gap_'') 3 True =
       Inr (BarFig [(Str ''Gamma'', Some 40), (Str ''Alpha'', Some 20), (Str ''Beta'', Some 20)])
   \<and> bar_chart ab_table (Some ''gap_'') 3 False =
       Inr (BarFig [(Str ''Alpha'', Some 20), (Str ''Beta'', Some 20), (Str ''Gamma'', Some 40)])"
proof -
  have m: "''gap_'' \<in> set (columns ab_table)" by (simp add: ab_table_def)
  have h: "\<not> has_str (column ab_table ''gap_'')" by code_simp
  have c: "category_column ab_table = Inr ''entity''" by code_simp
  have n: "card (set (column ab_table ''entity'') - {NaN}) = 3" by code_simp
  have b1: "bar_chart ab_table (Some ''gap_'') 3 True =
       Inr (BarFig [(Str ''Gamma'', Some 40), (Str ''Alpha'', Some 20), (Str ''Beta'', Some 20)])"
    by code_simp
  have b2: "bar_chart ab_table (Some ''gap_'') 3 False =
       Inr (BarFig [(Str ''Alpha'', Some 20), (Str ''Beta'', Some 20), (Str ''Gamma'', Some 40)])"
    by code_simp
  from bar_chart_series [OF m h, of 3 True] m h c n b1 b2 show ?thesis by simp
qed

lemma contains_sublist: "contains sub s \<longleftrightarrow> sublist sub s"
  by (induction s) (auto simp: sublist_Cons_right)

lemma find_gap_col_nonempty:
  assumes "find_gap_col cols = Some g"
  shows "g \<noteq> []"
  using assms by (auto simp: find_gap_col_def find_Some_iff)

lemma set_head: "set (head n xs) \<subseteq> set xs"
  by (auto simp: head_def dest: in_set_takeD)

lemma set_nlargest: "set (nlargest n s) \<subseteq> set s"
  by (auto simp: nlargest_def set_sort_values dest: in_set_takeD)

lemma length_nlargest: "length (nlargest n s) = min n (length s)"
  by (simp add: nlargest_def length_sort_values min.commute)

text \<open>
  C10. In the series the Bar Chart and the Treatment Gap Pie branches aggregate, the
  missing value is never a category: the categories are the distinct non-missing values
  of the category column, each once, so their number counts non-missing values only; and
  the mean of a category is taken over the metric cells, of the rows of that category,
  that hold a number. Both branches show entries of this series.
\<close>

theorem grouping_skips_missing:
  assumes "category_column df = Inr cat" and "groupby_mean df cat metric = Inr agg"
  shows "NaN \<notin> fst ` set agg
    \<and> distinct (map fst agg)
    \<and> fst ` set agg = set (column df cat) - {NaN}
    \<and> length agg = card (set (column df cat) - {NaN})
    \<and> (\<forall>e\<in>set agg. snd e = mean (numbers (group_values df cat metric (fst e))))
    \<and> (\<forall>k x. x \<in> set (numbers (group_values df cat metric k)) \<longleftrightarrow>
          (\<exists>r\<in>set (rows df). cell_at (columns df) cat r = k \<and> cell_at (columns df) metric r = Num x))
    \<and> (\<exists>s. bar_chart df (Some metric) top_n srt = Inr (BarFig s) \<and> set s \<subseteq> set agg)
    \<and> (find_gap_col (columns df) = Some metric \<longrightarrow>
          (\<exists>s. gap_pie df = Inr (PieFig s) \<and> set s \<subseteq> set agg))"
proof -
  note ser = groupby_mean_series [OF assms(2)]
  have 1: "NaN \<notin> fst ` set agg" by (simp add: ser(2))
  have 2: "\<forall>e\<in>set agg. snd e = mean (numbers (group_values df cat metric (fst e)))"
  proof
    fix e assume "e \<in> set agg"
    with ser(3) [of "fst e" "snd e"] show "snd e = mean (numbers (group_values df cat metric (fst e)))"
      by simp
  qed
  have 3: "\<forall>k x. x \<in> set (numbers (group_values df cat metric k)) \<longleftrightarrow>
      (\<exists>r\<in>set (rows df). cell_at (columns df) cat r = k \<and> cell_at (columns df) metric r = Num x)"
    by (force simp: numbers_mem group_values_def)
  have 4: "\<exists>s. bar_chart df (Some metric) top_n srt = Inr (BarFig s) \<and> set s \<subseteq> set agg"
    using set_head [of top_n "sort_values (\<not> srt) agg"]
    by (simp add: bar_chart_def assms set_sort_values)
  have 5: "\<exists>s. gap_pie df = Inr (PieFig s) \<and> set s \<subseteq> set agg"
    if "find_gap_col (columns df) = Some metric"
    using that find_gap_col_nonempty [OF that] set_nlargest [of 8 agg]
    by (simp add: gap_pie_def assms)
  from 1 ser(1,2,4) 2 3 4 5 show ?thesis by blast
qed

theorem grouping_skips_missing_witness:
  "category_column ab_table = Inr ''entity''
   \<and> column ab_table ''entity'' = [Str ''Alpha'', Str ''Beta'', Str ''Alpha'', Str ''Gamma'', NaN]
   \<and> groupby_mean ab_table ''entity'' ''gap_'' =
       Inr [(Str ''Alpha'', Some 20), (Str ''Beta'', Some 20), (Str ''Gamma'', Some 40)]
   \<and> find_gap_col (columns ab_table) = Some ''gap_''
   \<and> gap_pie ab_table =
       Inr (PieFig [(Str ''Gamma'', Some 40), (Str ''Alpha'', Some 20), (Str ''Beta'', Some 20)])
   \<and> groupby_mean ac_table ''entity'' ''gap_'' =
       Inr [(Str ''Alpha'', Some 20), (Str ''Beta'', Some 20), (Str ''Delta'', Some 60)]
   \<and> group_values ac_table ''entity'' ''gap_'' (Str ''Beta'') = [Num 20, NaN]"
proof -
  have c: "category_column ab_table = Inr ''entity''" by code_simp
  have k: "column ab_table ''entity'' = [Str ''Alpha'', Str ''Beta'', Str ''Alpha'', Str ''Gamma'', NaN]"
    by code_simp
  have g: "groupby_mean ab_table ''entity'' ''gap_'' =
       Inr [(Str ''Alpha'', Some 20), (Str ''Beta'', Some 20), (Str ''Gamma'', Some 40)]"
    by code_simp
  have f: "find_gap_col (columns ab_table) = Some ''gap_''" by code_simp
  have p: "gap_pie ab_table =
       Inr (PieFig [(Str ''Gamma'', Some 40), (Str ''Alpha'', Some 20), (Str ''Beta'', Some 20)])"
    by code_simp
  have g2: "groupby_mean ac_table ''entity'' ''gap_'' =
       Inr [(Str ''Alpha'', Some 20), (Str ''Beta'', Some 20), (Str ''Delta'', Some 60)]"
    by code_simp
  have v: "group_values ac_table ''entity'' ''gap_'' (Str ''Beta'') = [Num 20, NaN]"
    by code_simp
  from grouping_skips_missing [OF c g, of 3 True] c k g f p g2 v show ?thesis by simp
qed

lemma gap_pie_cases:
  assumes "gap_pie df = Inr a"
  shows "a = Warning ''No gap column found.'' \<or> (\<exists>means. a = PieFig (nlargest 8 means))"
  using assms by (auto simp: gap_pie_def split: option.splits if_splits sum.splits)

text \<open>
  C5. The Treatment Gap Pie branch shows the warning, and neither a series nor a figure,
  exactly when no column label contains ``gap'' or ``percent''; a series it aggregates
  has at most eight entries; and otherwise the gap metric is the first label, in the
  order of the columns, that contains one of the two words, the series being the eight
  largest means of that column by category when the column holds no string.
\<close>

theorem gap_pie_series:
  "(find_gap_col (columns df) = None \<longleftrightarrow>
      (\<forall>c\<in>set (columns df). \<not> sublist ''gap'' c \<and> \<not> sublist ''percent'' c))
   \<and> (find_gap_col (columns df) = None \<longrightarrow>
        gap_pie df = Inr (Warning ''No gap column found.'')
        \<and> aggregated (Warning ''No gap column found.'') = []
        \<and> charts (Warning ''No gap column found.'') = 0)
   \<and> (\<forall>a. gap_pie df = Inr a \<longrightarrow> length (aggregated a) \<le> 8)
   \<and> (\<forall>g. find_gap_col (columns df) = Some g \<longrightarrow>
        (\<exists>i<length (columns df). columns df ! i = g
            \<and> (sublist ''gap'' g \<or> sublist ''percent'' g)
            \<and> (\<forall>j<i. \<not> sublist ''gap'' (columns df ! j) \<and> \<not> sublist ''percent'' (columns df ! j)))
        \<and> (\<not> has_str (column df g) \<longrightarrow>
             (\<exists>cat means. category_column df = Inr cat \<and> groupby_mean df cat g = Inr means
                \<and> gap_pie df = Inr (PieFig (nlargest 8 means))
                \<and> length (nlargest 8 means) = min 8 (card (set (column df cat) - {NaN})))))"
proof -
  have 1: "find_gap_col (columns df) = None \<longleftrightarrow>
      (\<forall>c\<in>set (columns df). \<not> sublist ''gap'' c \<and> \<not> sublist ''percent'' c)"
    by (auto simp: find_gap_col_def find_None_iff contains_sublist)
  have 2: "gap_pie df = Inr (Warning ''No gap column found.'')"
    if "find_gap_col (columns df) = None"
    using that by (simp add: gap_pie_def)
  have 3: "length (aggregated a) \<le> 8" if "gap_pie df = Inr a" for a
    using gap_pie_cases [OF that] by (auto simp: length_nlargest)
  have 4: "\<exists>i<length (columns df). columns df ! i = g
            \<and> (sublist ''gap'' g \<or> sublist ''percent'' g)
            \<and> (\<forall>j<i. \<not> sublist ''gap'' (columns df ! j) \<and> \<not> sublist ''percent'' (columns df ! j))"
    if "find_gap_col (columns df) = Some g" for g
    using that unfolding find_gap_col_def find_Some_iff contains_sublist by auto
  have 5: "\<exists>cat means. category_column df = Inr cat \<and> groupby_mean df cat g = Inr means
                \<and> gap_pie df = Inr (PieFig (nlargest 8 means))
                \<and> length (nlargest 8 means) = min 8 (card (set (column df cat) - {NaN}))"
    if g: "find_gap_col (columns df) = Some g" and num: "\<not> has_str (column df g)" for g
  proof -
    from 4 [OF g] have mem: "g \<in> set (columns df)" by auto
    from category_column_defined [OF mem] obtain cat
      where cat: "category_column df = Inr cat" "cat \<in> set (columns df)" by blast
    from groupby_mean_defined [OF cat(2) mem num] obtain means
      where means: "groupby_mean df cat g = Inr means" by blast
    have "gap_pie df = Inr (PieFig (nlargest 8 means))"
      using find_gap_col_nonempty [OF g] by (simp add: gap_pie_def g cat means)
    moreover have "length (nlargest 8 means) = min 8 (card (set (column df cat) - {NaN}))"
      by (simp add: length_nlargest groupby_mean_series(4) [OF means])
    ultimately show ?thesis using cat(1) means by blast
  qed
  from 1 2 3 4 5 show ?thesis by simp
qed

theorem gap_pie_series_witness:
  "find_gap_col (columns h_table) = None
   \<and> gap_pie h_table = Inr (Warning ''No gap column found.'')
   \<and> find_gap_col (columns ac_table) = Some ''gap_''
   \<and> \<not> has_str (column ac_table ''gap_'')
   \<and> gap_pie ac_table =
       Inr (PieFig [(Str ''Delta'', Some 60), (Str ''Alpha'', Some 20), (Str ''Beta'', Some 20)])
   \<and> length (aggregated (PieFig [(Str ''Delta'', Some 60), (Str ''Alpha'', Some 20),
                                  (Str ''Beta'', Some 20)])) \<le> 8"
proof -
  have n: "find_gap_col (columns h_table) = None" by code_simp
  have g: "find_gap_col (columns ac_table) = Some ''gap_''" by code_simp
  have h: "\<not> has_str (column ac_table ''gap_'')" by code_simp
  have p: "gap_pie ac_table =
       Inr (PieFig [(Str ''Delta'', Some 60), (Str ''Alpha'', Some 20), (Str ''Beta'', Some 20)])"
    by code_simp
  from gap_pie_series [of h_table] n
  have w: "gap_pie h_table = Inr (Warning ''No gap column found.'')" by blast
  from gap_pie_series [of ac_table] p
  have l: "length (aggregated (PieFig [(Str ''Delta'', Some 60), (Str ''Alpha'', Some 20),
                                  (Str ''Beta'', Some 20)])) \<le> 8" by blast
  from n w g h p l show ?thesis by blast
qed

section \<open>The script as a whole\<close>

lemma normalize_source_file: "normalize_name ''source_file'' = ''source_file''"
  by code_simp

lemma load_data_source_file:
  assumes "load_data csvs = Inr df"
  shows "''source_file'' \<in> set (columns df)"
proof -
  from assms obtain f where "f \<in> set csvs"
    by (cases csvs) (auto simp: load_data_def pd_concat_def)
  then have "normalize_name ''source_file'' \<in> set (columns df)"
    unfolding load_data_labels [OF assms] by blast
  then show ?thesis by (simp add: normalize_source_file)
qed

lemma trend_without_year:
  assumes "''year'' \<notin> set (columns df)"
  shows "trend df tm = Inr (Warning ''This dataset does not contain a 'year' column.'')"
  using assms by (simp add: trend_def)

lemma app_trend_without_year:
  assumes ld: "load_data csvs = Inr df" and d: "distinct (columns df)"
    and ny: "''year'' \<notin> set (columns df)" and ch: "chart u = TrendOverTime"
  shows "\<exists>p. app csvs u = Inr p
    \<and> shown p = Warning ''This dataset does not contain a 'year' column.''"
proof -
  from d have nc: "numeric_cols df = Inr (filter (is_numeric_col df) (columns df))"
    by (simp add: numeric_cols_def)
  define source where "source = pick_source df (pick_dataset u)"
  from load_data_source_file [OF ld]
  have "\<exists>v. select_source source df = Inr v \<and> columns v = columns df"
    by (simp add: select_source_def)
  then obtain v where v: "select_source source df = Inr v" "columns v = columns df"
    by blast
  with ny have fs: "filter_section df source (year_range u) = Inr v"
    by (simp add: filter_section_def)
  from ny v(2) have "render v (filter (is_numeric_col df) (columns df)) u
      = Inr (Warning ''This dataset does not contain a 'year' column.'')"
    by (simp add: render_def ch trend_without_year)
  with ld nc fs show ?thesis by (simp add: app_def source_def)
qed

text \<open>
  C6. On a view without a year column the Trend Over Time branch returns the warning
  and no figure, and a run of the script on files whose table has no year column ends
  with that warning on the page instead of raising. With a year column and a metric
  column that holds no string, the branch plots one point for every distinct non-missing
  year, in ascending order of the years, at the mean of the metric over the rows of that
  year.
\<close>

theorem trend_view:
  "(''year'' \<notin> set (columns df) \<longrightarrow>
      trend df tm = Inr (Warning ''This dataset does not contain a 'year' column.'')
      \<and> charts (Warning ''This dataset does not contain a 'year' column.'') = 0)
   \<and> (load_data csvs = Inr t \<and> distinct (columns t) \<and> ''year'' \<notin> set (columns t)
        \<and> chart u = TrendOverTime \<longrightarrow>
        (\<exists>p. app csvs u = Inr p
           \<and> shown p = Warning ''This dataset does not contain a 'year' column.''))
   \<and> (''year'' \<in> set (columns df) \<and> m \<in> set (columns df) \<and> \<not> has_str (column df m) \<longrightarrow>
        (\<exists>pts. trend df (Some m) = Inr (LineFig pts)
           \<and> distinct (map fst pts)
           \<and> fst ` set pts = set (column df ''year'') - {NaN}
           \<and> sorted (map (\<lambda>e. sort_rank (fst e)) pts)
           \<and> (\<forall>e\<in>set pts. snd e = mean (numbers (group_values df ''year'' m (fst e))))))"
proof -
  have 3: "\<exists>pts. trend df (Some m) = Inr (LineFig pts)
           \<and> distinct (map fst pts)
           \<and> fst ` set pts = set (column df ''year'') - {NaN}
           \<and> sorted (map (\<lambda>e. sort_rank (fst e)) pts)
           \<and> (\<forall>e\<in>set pts. snd e = mean (numbers (group_values df ''year'' m (fst e))))"
    if y: "''year'' \<in> set (columns df)" and m: "m \<in> set (columns df)"
      and num: "\<not> has_str (column df m)"
  proof -
    from groupby_mean_defined [OF y m num] obtain pts
      where pts: "groupby_mean df ''year'' m = Inr pts" by blast
    note ser = groupby_mean_series [OF pts]
    have "\<forall>e\<in>set pts. snd e = mean (numbers (group_values df ''year'' m (fst e)))"
    proof
      fix e assume "e \<in> set pts"
      with ser(3) [of "fst e" "snd e"]
      show "snd e = mean (numbers (group_values df ''year'' m (fst e)))" by simp
    qed
    moreover have "trend df (Some m) = Inr (LineFig pts)" by (simp add: trend_def y pts)
    ultimately show ?thesis using ser(1,2,5) by blast
  qed
  from trend_without_year [of df tm] app_trend_without_year [of csvs t u] 3
  show ?thesis by simp
qed

theorem trend_view_witness:
  "''year'' \<notin> set (columns c_table)
   \<and> load_data [c_csv] = Inr c_table \<and> distinct (columns c_table)
   \<and> app [c_csv] (ui_start\<lparr>chart := TrendOverTime\<rparr>) =
       Inr \<lparr>kpi_rows = 2, kpi_numeric = 1, kpi_entities = 2,
            shown = Warning ''This dataset does not contain a 'year' column.''\<rparr>
   \<and> ''year'' \<in> set (columns ab_table) \<and> ''gap_'' \<in> set (columns ab_table)
   \<and> \<not> has_str (column ab_table ''gap_'')
   \<and> trend ab_table (Some ''gap_'') =
       Inr (LineFig [(Num 2000, Some 10), (Num 2005, Some 40), (Num 2006, Some 50),
                     (Num 2010, Some 25)])"
proof -
  have ny: "''year'' \<notin> set (columns c_table)" by (simp add: c_table_def)
  have d: "distinct (columns c_table)" by (simp add: c_table_def)
  have ch: "chart (ui_start\<lparr>chart := TrendOverTime\<rparr>) = TrendOverTime" by simp
  have a: "app [c_csv] (ui_start\<lparr>chart := TrendOverTime\<rparr>) =
       Inr \<lparr>kpi_rows = 2, kpi_numeric = 1, kpi_entities = 2,
            shown = Warning ''This dataset does not contain a 'year' column.''\<rparr>"
    by code_simp
  have y: "''year'' \<in> set (columns ab_table)" "''gap_'' \<in> set (columns ab_table)"
    by (simp_all add: ab_table_def)
  have h: "\<not> has_str (column ab_table ''gap_'')" by code_simp
  have tr: "trend ab_table (Some ''gap_'') =
       Inr (LineFig [(Num 2000, Some 10), (Num 2005, Some 40), (Num 2006, Some 50),
                     (Num 2010, Some 25)])"
    by code_simp
  from trend_view [where df = c_table and tm = None and csvs = "[c_csv]" and t = c_table
      and u = "ui_start\<lparr>chart := TrendOverTime\<rparr>"]
    trend_view [where df = ab_table and m = "''gap_''"]
    ny load_data_c d ch a y h tr
  show ?thesis by simp
qed

end
